theory Spec2Isabelle
  imports Main "HOL-Library.Sublist"
begin

section \<open>Strings of the interpreter\<close>

text \<open>
  A Python \<open>str\<close> is a sequence of Unicode code points and \<open>len\<close> counts code points,
  so a string is modelled as a list of code points (natural numbers), not as a list of
  bytes. An ASCII literal of the source is written with \<open>ascii\<close>; a literal with other
  letters is written out as its code points.
\<close>

type_synonym codepoint = nat
type_synonym pystr = "codepoint list"

definition ascii :: "string \<Rightarrow> pystr" where
  "ascii s = map of_char s"

text \<open>
  \<open>str.strip()\<close> removes the leading and the trailing run of white space. The white space
  of \<open>str\<close> is the set of code points below.
\<close>

definition isspace :: "codepoint \<Rightarrow> bool" where
  "isspace c \<longleftrightarrow>
     (0x09 \<le> c \<and> c \<le> 0x0D) \<or> (0x1C \<le> c \<and> c \<le> 0x20) \<or> c = 0x85 \<or> c = 0xA0 \<or>
     c = 0x1680 \<or> (0x2000 \<le> c \<and> c \<le> 0x200A) \<or> c = 0x2028 \<or> c = 0x2029 \<or>
     c = 0x202F \<or> c = 0x205F \<or> c = 0x3000"

definition strip :: "pystr \<Rightarrow> pystr" where
  "strip s = rev (dropWhile isspace (rev (dropWhile isspace s)))"

text \<open>
  \<open>str.lower()\<close> maps every code point to its lowercase form, which for U+0130 is two
  code points. The case table is written out for Basic Latin, the Latin-1 Supplement,
  the Turkish capitals of Latin Extended-A, basic Cyrillic and the two letter-like signs
  that lowercase into Latin letters: these are all the code points whose lowercase form
  contains a letter of the keyword tables or of the forbidden words below. Any other
  code point is returned as it is.
\<close>

definition lower_cp :: "codepoint \<Rightarrow> pystr" where
  "lower_cp c =
     (if 0x41 \<le> c \<and> c \<le> 0x5A then [c + 0x20]
      else if 0xC0 \<le> c \<and> c \<le> 0xDE \<and> c \<noteq> 0xD7 then [c + 0x20]
      else if c = 0x11E then [0x11F]
      else if c = 0x130 then [0x69, 0x307]
      else if c = 0x15E then [0x15F]
      else if 0x400 \<le> c \<and> c \<le> 0x40F then [c + 0x50]
      else if 0x410 \<le> c \<and> c \<le> 0x42F then [c + 0x20]
      else if c = 0x212A then [0x6B]
      else if c = 0x212B then [0xE5]
      else [c])"

definition lower :: "pystr \<Rightarrow> pystr" where
  "lower s = concat (map lower_cp s)"

text \<open>\<open>w in s\<close> on two strings is the test for a contiguous substring, \<^const>\<open>sublist\<close>.\<close>

section \<open>The response generator (ai\_response.py)\<close>

subsection \<open>Rule tables\<close>

datatype policy = apologize_and_support | neutral_improvement | thank_and_engage

definition response_rules :: "int \<rightharpoonup> policy" where
  "response_rules =
     [1 \<mapsto> apologize_and_support,
      2 \<mapsto> apologize_and_support,
      3 \<mapsto> neutral_improvement,
      4 \<mapsto> thank_and_engage,
      5 \<mapsto> thank_and_engage]"

text \<open>\<open>self.response_rules.get(rating, "neutral_improvement")\<close>\<close>

definition rule_for :: "int \<Rightarrow> policy" where
  "rule_for rating =
     (case response_rules rating of Some rule \<Rightarrow> rule | None \<Rightarrow> neutral_improvement)"

definition forbidden_words :: "pystr list" where
  "forbidden_words = map ascii
     [''sorry'', ''apologize'', ''unfortunately'', ''regret'', ''disappointed'',
      ''terrible'', ''awful'', ''hate'', ''worst'', ''useless'', ''broken'']"

subsection \<open>Language detection\<close>

text \<open>Language codes are strings of the source: \<open>'tr'\<close>, \<open>'es'\<close>, ...\<close>

definition turkish_words :: "pystr list" where
  "turkish_words =
     [[0xE7, 0x6F, 0x6B],
      [0x67, 0xFC, 0x7A, 0x65, 0x6C],
      ascii ''harika'',
      [0x74, 0x65, 0x15F, 0x65, 0x6B, 0x6B, 0xFC, 0x72],
      [0x73, 0x61, 0x11F, 0x6F, 0x6C],
      ascii ''iyi'',
      [0x6B, 0xF6, 0x74, 0xFC]]"

definition spanish_words :: "pystr list" where
  "spanish_words = map ascii
     [''muy'', ''bueno'', ''excelente'', ''gracias'', ''malo'', ''buena'']"

definition french_words :: "pystr list" where
  "french_words =
     [[0x74, 0x72, 0xE8, 0x73],
      ascii ''bon'', ascii ''excellent'', ascii ''merci'', ascii ''mauvais'', ascii ''bien'']"

definition german_words :: "pystr list" where
  "german_words = map ascii
     [''sehr'', ''gut'', ''ausgezeichnet'', ''danke'', ''schlecht'', ''toll'']"

definition russian_words :: "pystr list" where
  "russian_words =
     [[0x43E, 0x447, 0x435, 0x43D, 0x44C],
      [0x445, 0x43E, 0x440, 0x43E, 0x448, 0x43E],
      [0x43E, 0x442, 0x43B, 0x438, 0x447, 0x43D, 0x43E],
      [0x441, 0x43F, 0x430, 0x441, 0x438, 0x431, 0x43E],
      [0x43F, 0x43B, 0x43E, 0x445, 0x43E],
      [0x43A, 0x43B, 0x430, 0x441, 0x441, 0x43D, 0x43E]]"

definition indonesian_words :: "pystr list" where
  "indonesian_words = map ascii
     [''sangat'', ''bagus'', ''bagus'', ''terima'', ''kasih'', ''buruk'']"

definition persian_words :: "pystr list" where
  "persian_words =
     [[0x62E, 0x6CC, 0x644, 0x6CC],
      [0x62E, 0x648, 0x628],
      [0x639, 0x627, 0x644, 0x6CC],
      [0x645, 0x645, 0x646, 0x648, 0x646],
      [0x628, 0x62F],
      [0x639, 0x627, 0x644, 0x6CC]]"

text \<open>\<open>any(word in text_lower for word in words)\<close>\<close>

definition any_word_in :: "pystr list \<Rightarrow> pystr \<Rightarrow> bool" where
  "any_word_in words text_lower = list_ex (\<lambda>word. sublist word text_lower) words"

definition detect_language :: "pystr \<Rightarrow> pystr" where
  "detect_language text =
     (let text_lower = lower text in
      if any_word_in turkish_words text_lower then ascii ''tr''
      else if any_word_in spanish_words text_lower then ascii ''es''
      else if any_word_in french_words text_lower then ascii ''fr''
      else if any_word_in german_words text_lower then ascii ''de''
      else if any_word_in russian_words text_lower then ascii ''ru''
      else if any_word_in indonesian_words text_lower then ascii ''id''
      else if any_word_in persian_words text_lower then ascii ''fa''
      else ascii ''en'')"

text \<open>
  The detector in the words of the specification: a fixed, ordered list of pairs of a
  language and its keywords is scanned in the order of priority, the first language with
  a keyword in the lowercased text wins, and the default is \<open>'en'\<close>.
\<close>

definition spec_language_table :: "(pystr \<times> pystr list) list" where
  "spec_language_table =
     [(ascii ''tr'', turkish_words), (ascii ''es'', spanish_words),
      (ascii ''fr'', french_words), (ascii ''de'', german_words),
      (ascii ''ru'', russian_words), (ascii ''id'', indonesian_words),
      (ascii ''fa'', persian_words)]"

definition spec_detect :: "pystr \<Rightarrow> pystr" where
  "spec_detect text =
     (case find (\<lambda>(code, words). any_word_in words (lower text)) spec_language_table of
        Some (code, words) \<Rightarrow> code
      | None \<Rightarrow> ascii ''en'')"

subsection \<open>Validation of a generated response\<close>

text \<open>
  \<open>_validate_response\<close> returns the validated text or \<open>None\<close>. Its last block compares
  the response with the alphabet of the detected language and only writes a log line, so
  the language does not enter the result. Log lines are not part of the model.
\<close>

definition truncate_response :: "pystr \<Rightarrow> pystr" where
  "truncate_response response =
     (if length response > 350 then take 347 response @ ascii ''...'' else response)"

definition validate_response :: "pystr \<Rightarrow> pystr \<Rightarrow> pystr option" where
  "validate_response response language =
     (if response = [] then None
      else
        let response = truncate_response response;
            response_lower = lower response
        in if list_ex (\<lambda>word. sublist word response_lower) forbidden_words then None
           else if length (strip response) < 10 then None
           else Some (strip response))"

subsection \<open>The generative model\<close>

text \<open>
  \<open>_build_prompt\<close> renders the language, the rule, the rating, the review text and the
  knowledge base (fixed during a run) into the instruction text, and
  \<open>generate_content\<close> sends it to the model. The model is outside the program: the client
  is the answer at its n-th call to the prompt built from these values, \<open>Text\<close> of
  \<open>response.text\<close>, or \<open>Raises\<close> when building the prompt, the call or reading the text
  raises.
\<close>

datatype model_reply = Raises | Text pystr

type_synonym 'p client = "nat \<Rightarrow> 'p \<Rightarrow> model_reply"

record prompt =
  p_language :: pystr
  p_rule :: policy
  p_rating :: int
  p_review_text :: pystr

record log_entry =
  le_review_id :: pystr
  le_review_text :: pystr
  le_rating :: int
  le_language :: pystr
  original_ai_response :: pystr
  final_response :: pystr
  character_count :: nat

text \<open>
  The mutable state of a run: the number of calls made to the model, the reply history
  of the generator, and the calls made to the reply endpoint of the storefront, each with
  the review identifier and the text sent. The time stamp of a history entry is left out.
\<close>

record world =
  model_calls :: nat
  reply_history :: "log_entry list"
  reply_calls :: "(pystr \<times> pystr) list"

record environment =
  GEMINI_API_KEY :: "pystr option"
  genai :: "prompt client option"

text \<open>
  \<open>_init_gemini_client\<close>: \<open>None\<close> when the library cannot be imported or configured
  (\<open>genai\<close> is \<open>None\<close>) and when the key is not set or empty.
\<close>

definition init_gemini_client :: "environment \<Rightarrow> prompt client option" where
  "init_gemini_client env =
     (case genai env of
        None \<Rightarrow> None
      | Some client \<Rightarrow>
          (case GEMINI_API_KEY env of
             None \<Rightarrow> None
           | Some key \<Rightarrow> if key = [] then None else Some client))"

record ai_response_generator =
  gemini_client :: "prompt client option"

definition AIResponseGenerator :: "environment \<Rightarrow> ai_response_generator" where
  "AIResponseGenerator env = \<lparr>gemini_client = init_gemini_client env\<rparr>"

definition log_reply ::
  "world \<Rightarrow> pystr \<Rightarrow> pystr \<Rightarrow> int \<Rightarrow> pystr \<Rightarrow> pystr \<Rightarrow> pystr \<Rightarrow> world" where
  "log_reply w review_id review_text rating original_response final_resp language =
     w\<lparr>reply_history := reply_history w @
        [\<lparr>le_review_id = review_id, le_review_text = review_text, le_rating = rating,
          le_language = language, original_ai_response = original_response,
          final_response = final_resp, character_count = length final_resp\<rparr>]\<rparr>"

definition build_prompt :: "pystr \<Rightarrow> int \<Rightarrow> pystr \<Rightarrow> policy \<Rightarrow> prompt" where
  "build_prompt review_text rating language rule =
     \<lparr>p_language = language, p_rule = rule, p_rating = rating, p_review_text = review_text\<rparr>"

text \<open>
  \<open>generate_response\<close> returns the validated response, or \<open>None\<close> when there is no
  client, when anything in its \<open>try\<close> block raises, and when the validator returns
  nothing.
\<close>

definition generate_response ::
  "ai_response_generator \<Rightarrow> world \<Rightarrow> pystr \<Rightarrow> int \<Rightarrow> pystr \<Rightarrow> pystr option \<times> world" where
  "generate_response g w review_text rating review_id =
     (case gemini_client g of
        None \<Rightarrow> (None, w)
      | Some client \<Rightarrow>
          let language = detect_language review_text;
              rule = rule_for rating;
              prompt = build_prompt review_text rating language rule;
              w' = w\<lparr>model_calls := model_calls w + 1\<rparr>
          in (case client (model_calls w) prompt of
                Raises \<Rightarrow> (None, w')
              | Text text \<Rightarrow>
                  let ai_response = strip text in
                  (case validate_response ai_response language of
                     None \<Rightarrow> (None, w')
                   | Some validated_response \<Rightarrow>
                       if validated_response = [] then (None, w')
                       else (Some validated_response,
                             log_reply w' review_id review_text rating ai_response
                               validated_response language))))"

section \<open>The generator of the backend service (backend/ai\_response.py)\<close>

text \<open>
  The backend service has its own generator and its own orchestrator under the same
  names; they are written here with the prefix \<open>backend\<close>.
\<close>

subsection \<open>Language detection\<close>

definition turkish_indicators :: pystr where
  "turkish_indicators =
     [0xE7, 0x11F, 0x131, 0xF6, 0x15F, 0xFC, 0xC7, 0x11E, 0x130, 0xD6, 0x15E, 0xDC]"

definition english_words :: "pystr list" where
  "english_words = map ascii
     [''the'', ''and'', ''is'', ''in'', ''to'', ''of'', ''a'', ''that'', ''it'', ''with'']"

text \<open>
  \<open>str.split()\<close> cuts a string at the runs of white space. \<open>split_from cur s\<close> has
  read the word \<open>cur\<close> so far.
\<close>

fun split_from :: "pystr \<Rightarrow> pystr \<Rightarrow> pystr list" where
  "split_from cur [] = (if cur = [] then [] else [cur])"
| "split_from cur (c # cs) =
     (if isspace c then (if cur = [] then split_from [] cs else cur # split_from [] cs)
      else split_from (cur @ [c]) cs)"

definition split :: "pystr \<Rightarrow> pystr list" where
  "split s = split_from [] s"

definition backend_detect_language :: "pystr \<Rightarrow> pystr" where
  "backend_detect_language text =
     (if list_ex (\<lambda>char. char \<in> set text) turkish_indicators then ascii ''tr''
      else
        let words = split (lower text) in
        if list_ex (\<lambda>word. word \<in> set words) english_words then ascii ''en''
        else ascii ''en'')"

subsection \<open>Generation\<close>

text \<open>
  The prompt of the backend is the Turkish or the English template, filled with the
  rating and the review text. A reply \<open>Text []\<close> stands for a response without text.
\<close>

record backend_prompt =
  bp_turkish :: bool
  bp_rating :: int
  bp_review_text :: pystr

record backend_entry =
  be_review_id :: pystr
  be_review_text :: pystr
  be_rating :: int
  be_language :: pystr
  be_response :: pystr

record backend_world =
  b_model_calls :: nat
  b_generator_history :: "backend_entry list"
  b_reply_calls :: "(pystr \<times> pystr) list"
  b_reply_history :: "(pystr \<times> pystr) list"

record backend_generator =
  api_key :: "pystr option"
  model :: "backend_prompt client"

definition backend_generate_response ::
  "backend_generator \<Rightarrow> backend_world \<Rightarrow> pystr \<Rightarrow> int \<Rightarrow> pystr
     \<Rightarrow> pystr option \<times> backend_world" where
  "backend_generate_response g w review_text rating review_id =
     (if api_key g = None \<or> api_key g = Some [] then (None, w)
      else
        let language = backend_detect_language review_text;
            prompt = \<lparr>bp_turkish = (language = ascii ''tr''), bp_rating = rating,
                      bp_review_text = review_text\<rparr>;
            w' = w\<lparr>b_model_calls := b_model_calls w + 1\<rparr>
        in (case model g (b_model_calls w) prompt of
              Raises \<Rightarrow> (None, w')
            | Text text \<Rightarrow>
                if text \<noteq> [] then
                  let ai_response = strip text in
                  (Some ai_response,
                   w'\<lparr>b_generator_history := b_generator_history w' @
                        [\<lparr>be_review_id = review_id, be_review_text = review_text,
                          be_rating = rating, be_language = language,
                          be_response = ai_response\<rparr>]\<rparr>)
                else (None, w')))"

section \<open>The reply orchestrator (reviews.py)\<close>

record review =
  reviewId :: pystr
  rating :: int
  userComment :: pystr
  hasReply :: bool

text \<open>
  The exceptions that reach the orchestrators, each with its message. The handlers of
  reviews.py answer an HTTP error of the storefront with
  \<open>raise HttpError(e.resp, error_msg)\<close>, where \<open>error_msg\<close> is a \<open>str\<close>. The
  constructor of the library's \<open>HttpError\<close> takes the body of the response as
  \<open>bytes\<close> and raises \<open>TypeError('HTTP content should be bytes')\<close> on anything
  else, and an exception raised inside an \<open>except\<close> clause is not caught by the
  clauses beside it. So what leaves the handler on an HTTP error is that \<open>TypeError\<close>.
\<close>

datatype exn = TypeError pystr | Exception pystr

text \<open>\<open>str(e)\<close>: the message given to the exception.\<close>

fun exn_text :: "exn \<Rightarrow> pystr" where
  "exn_text (TypeError message) = message"
| "exn_text (Exception message) = message"

text \<open>The answer of \<open>service.reviews().reply(...).execute()\<close>: done, or one of two raises.\<close>

datatype api_result = Done | ApiHttpError pystr | ApiException pystr

text \<open>
  The handler: the two flags of the constructor and the storefront, which is outside the
  program. \<open>list_reviews\<close> is the formatted list of reviews for \<open>max_results\<close> or the
  exception it raises; \<open>reviews_reply\<close> is the answer of the reply endpoint at its n-th
  call.
\<close>

record google_play_reviews =
  enable_ai :: bool
  ai_generator :: "ai_response_generator option"
  list_reviews :: "int \<Rightarrow> exn + review list"
  reviews_reply :: "nat \<Rightarrow> pystr \<Rightarrow> pystr \<Rightarrow> api_result"

definition GooglePlayReviews ::
  "environment \<Rightarrow> (int \<Rightarrow> exn + review list) \<Rightarrow> (nat \<Rightarrow> pystr \<Rightarrow> pystr \<Rightarrow> api_result) \<Rightarrow> bool
     \<Rightarrow> google_play_reviews" where
  "GooglePlayReviews env lst rep enable =
     \<lparr>enable_ai = enable,
      ai_generator = (if enable then Some (AIResponseGenerator env) else None),
      list_reviews = lst, reviews_reply = rep\<rparr>"

text \<open>
  \<open>reply_to_review\<close> returns \<open>True\<close> or raises: on an HTTP error of the endpoint
  the \<open>TypeError\<close> of the constructor, on any other exception an \<open>Exception\<close> with
  the message \<open>Unexpected error while replying to review:\<close> and its text.
\<close>

definition reply_to_review ::
  "google_play_reviews \<Rightarrow> world \<Rightarrow> pystr \<Rightarrow> pystr \<Rightarrow> (exn + bool) \<times> world" where
  "reply_to_review h w review_id reply_text =
     (let w' = w\<lparr>reply_calls := reply_calls w @ [(review_id, reply_text)]\<rparr> in
      case reviews_reply h (length (reply_calls w)) review_id reply_text of
        Done \<Rightarrow> (Inr True, w')
      | ApiHttpError e \<Rightarrow> (Inl (TypeError (ascii ''HTTP content should be bytes'')), w')
      | ApiException e \<Rightarrow>
          (Inl (Exception (ascii ''Unexpected error while replying to review: '' @ e)), w'))"

datatype status = st_skipped | st_failed | st_dry_run_success | st_success

datatype reason =
  already_has_reply | no_comment | ai_generation_failed | api_post_failed | str_exn exn

record detail =
  d_review_id :: pystr
  d_status :: status
  d_reason :: "reason option"
  d_response :: "pystr option"

text \<open>
  The dictionary of results. The one returned for an empty batch has no \<open>details\<close> key:
  \<open>details\<close> is \<open>None\<close> there.
\<close>

record results =
  processed :: int
  successful :: int
  failed :: int
  skipped :: int
  details :: "detail list option"

definition append_detail :: "detail \<Rightarrow> results \<Rightarrow> results" where
  "append_detail d res = res\<lparr>details := map_option (\<lambda>ds. ds @ [d]) (details res)\<rparr>"

text \<open>The body of the loop over the reviews, on the results so far and the state.\<close>

definition process_review ::
  "google_play_reviews \<Rightarrow> ai_response_generator \<Rightarrow> bool \<Rightarrow> results \<times> world \<Rightarrow> review
     \<Rightarrow> results \<times> world" where
  "process_review h g dry_run s rv =
     (let (res0, w) = s;
          res = res0\<lparr>processed := processed res0 + 1\<rparr>;
          review_id = reviewId rv;
          comment = userComment rv
      in
      if hasReply rv then
        (append_detail
           \<lparr>d_review_id = review_id, d_status = st_skipped,
            d_reason = Some already_has_reply, d_response = None\<rparr>
           (res\<lparr>skipped := skipped res + 1\<rparr>), w)
      else if comment = [] \<or> strip comment = [] then
        (append_detail
           \<lparr>d_review_id = review_id, d_status = st_skipped,
            d_reason = Some no_comment, d_response = None\<rparr>
           (res\<lparr>skipped := skipped res + 1\<rparr>), w)
      else
        let (ai_response, w1) = generate_response g w comment (rating rv) review_id in
        case ai_response of
          None \<Rightarrow>
            (append_detail
               \<lparr>d_review_id = review_id, d_status = st_failed,
                d_reason = Some ai_generation_failed, d_response = None\<rparr>
               (res\<lparr>failed := failed res + 1\<rparr>), w1)
        | Some text \<Rightarrow>
            if text = [] then
              (append_detail
                 \<lparr>d_review_id = review_id, d_status = st_failed,
                  d_reason = Some ai_generation_failed, d_response = None\<rparr>
                 (res\<lparr>failed := failed res + 1\<rparr>), w1)
            else if dry_run then
              (append_detail
                 \<lparr>d_review_id = review_id, d_status = st_dry_run_success,
                  d_reason = None, d_response = Some text\<rparr>
                 (res\<lparr>successful := successful res + 1\<rparr>), w1)
            else
              (case reply_to_review h w1 review_id text of
                 (Inr True, w2) \<Rightarrow>
                   (append_detail
                      \<lparr>d_review_id = review_id, d_status = st_success,
                       d_reason = None, d_response = Some text\<rparr>
                      (res\<lparr>successful := successful res + 1\<rparr>), w2)
               | (Inr False, w2) \<Rightarrow>
                   (append_detail
                      \<lparr>d_review_id = review_id, d_status = st_failed,
                       d_reason = Some api_post_failed, d_response = Some text\<rparr>
                      (res\<lparr>failed := failed res + 1\<rparr>), w2)
               | (Inl e, w2) \<Rightarrow>
                   (append_detail
                      \<lparr>d_review_id = review_id, d_status = st_failed,
                       d_reason = Some (str_exn e), d_response = None\<rparr>
                      (res\<lparr>failed := failed res + 1\<rparr>), w2)))"

definition empty_results :: results where
  "empty_results =
     \<lparr>processed = 0, successful = 0, failed = 0, skipped = 0, details = Some []\<rparr>"

text \<open>
  \<open>auto_reply_to_reviews\<close> returns the results or raises: when AI is not enabled, and
  when fetching the reviews raises.
\<close>

definition auto_reply_to_reviews ::
  "google_play_reviews \<Rightarrow> world \<Rightarrow> int \<Rightarrow> bool \<Rightarrow> (exn + results) \<times> world" where
  "auto_reply_to_reviews h w max_results dry_run =
     (case (if enable_ai h then ai_generator h else None) of
        None \<Rightarrow> (Inl (Exception (ascii ''AI is not enabled. Initialize with enable_ai=True'')), w)
      | Some g \<Rightarrow>
          (case list_reviews h max_results of
             Inl e \<Rightarrow>
               (Inl (Exception
                  (ascii ''Unexpected error during auto-reply process: '' @ exn_text e)), w)
           | Inr reviews \<Rightarrow>
               if reviews = [] then
                 (Inr \<lparr>processed = 0, successful = 0, failed = 0, skipped = 0, details = None\<rparr>,
                  w)
               else
                 let (res, w') = foldl (process_review h g dry_run) (empty_results, w) reviews
                 in (Inr res, w')))"

section \<open>The orchestrator of the backend service (backend/reviews.py)\<close>

record backend_reviews =
  b_enable_ai :: bool
  b_ai_generator :: "backend_generator option"
  b_list_reviews :: "int \<Rightarrow> exn + review list"
  b_reviews_reply :: "nat \<Rightarrow> pystr \<Rightarrow> pystr \<Rightarrow> api_result"

text \<open>
  The backend's \<open>reply_to_review\<close> returns \<open>False\<close> on an HTTP error and lets any other
  exception through.
\<close>

definition backend_reply_to_review ::
  "backend_reviews \<Rightarrow> backend_world \<Rightarrow> pystr \<Rightarrow> pystr \<Rightarrow> (exn + bool) \<times> backend_world" where
  "backend_reply_to_review h w review_id reply_text =
     (let w' = w\<lparr>b_reply_calls := b_reply_calls w @ [(review_id, reply_text)]\<rparr> in
      case b_reviews_reply h (length (b_reply_calls w)) review_id reply_text of
        Done \<Rightarrow>
          (Inr True,
           if b_enable_ai h
           then w'\<lparr>b_reply_history := b_reply_history w' @ [(review_id, reply_text)]\<rparr>
           else w')
      | ApiHttpError e \<Rightarrow> (Inr False, w')
      | ApiException e \<Rightarrow> (Inl (Exception e), w'))"

datatype backend_status = bs_skipped | bs_posted | bs_failed | bs_preview | bs_error

record backend_detail =
  bd_review_id :: pystr
  bd_status :: backend_status
  bd_reason :: "pystr option"
  bd_rating :: "int option"
  bd_review_text :: "pystr option"
  bd_ai_response :: "pystr option"
  bd_error :: "exn option"

definition backend_skip :: "pystr \<Rightarrow> backend_status \<Rightarrow> string \<Rightarrow> backend_detail" where
  "backend_skip review_id st why =
     \<lparr>bd_review_id = review_id, bd_status = st, bd_reason = Some (ascii why),
      bd_rating = None, bd_review_text = None, bd_ai_response = None, bd_error = None\<rparr>"

definition backend_replied :: "review \<Rightarrow> pystr \<Rightarrow> backend_status \<Rightarrow> backend_detail" where
  "backend_replied rv ai_response st =
     \<lparr>bd_review_id = reviewId rv, bd_status = st, bd_reason = None,
      bd_rating = Some (rating rv), bd_review_text = Some (userComment rv),
      bd_ai_response = Some ai_response, bd_error = None\<rparr>"

definition backend_process_review ::
  "backend_reviews \<Rightarrow> backend_generator \<Rightarrow> bool \<Rightarrow> backend_detail list \<times> backend_world
     \<Rightarrow> review \<Rightarrow> backend_detail list \<times> backend_world" where
  "backend_process_review h g dry_run s rv =
     (let (res, w) = s in
      if hasReply rv then
        (res @ [backend_skip (reviewId rv) bs_skipped ''Already has a reply''], w)
      else if rating rv \<ge> 5 then
        (res @ [backend_skip (reviewId rv) bs_skipped ''Positive review (5 stars)''], w)
      else
        let (ai_response, w1) =
              backend_generate_response g w (userComment rv) (rating rv) (reviewId rv)
        in
        if ai_response \<noteq> None \<and> ai_response \<noteq> Some [] then
          if \<not> dry_run then
            (case backend_reply_to_review h w1 (reviewId rv) (the ai_response) of
               (Inr success, w2) \<Rightarrow>
                 (res @ [backend_replied rv (the ai_response)
                           (if success then bs_posted else bs_failed)], w2)
             | (Inl e, w2) \<Rightarrow>
                 (res @ [\<lparr>bd_review_id = reviewId rv, bd_status = bs_error, bd_reason = None,
                          bd_rating = None, bd_review_text = None, bd_ai_response = None,
                          bd_error = Some e\<rparr>], w2))
          else (res @ [backend_replied rv (the ai_response) bs_preview], w1)
        else
          (res @ [backend_skip (reviewId rv) bs_failed ''Failed to generate AI response''], w1))"

definition backend_auto_reply_to_reviews ::
  "backend_reviews \<Rightarrow> backend_world \<Rightarrow> int \<Rightarrow> bool
     \<Rightarrow> (exn + backend_detail list) \<times> backend_world" where
  "backend_auto_reply_to_reviews h w max_results dry_run =
     (case (if b_enable_ai h then b_ai_generator h else None) of
        None \<Rightarrow>
          (Inl (Exception (ascii ''AI is not enabled or AI generator is not available'')), w)
      | Some g \<Rightarrow>
          (case b_list_reviews h max_results of
             Inl e \<Rightarrow> (Inl e, w)
           | Inr reviews \<Rightarrow>
               let (res, w') = foldl (backend_process_review h g dry_run) ([], w) reviews
               in (Inr res, w')))"

section \<open>The loop, position by position\<close>

text \<open>The state in which the loop reaches the review at position \<open>i\<close> of the batch.\<close>

definition world_at ::
  "google_play_reviews \<Rightarrow> ai_response_generator \<Rightarrow> bool \<Rightarrow> world \<Rightarrow> review list \<Rightarrow> nat \<Rightarrow> world"
  where
  "world_at h g dry_run w reviews i =
     snd (foldl (process_review h g dry_run) (empty_results, w) (take i reviews))"

definition backend_world_at ::
  "backend_reviews \<Rightarrow> backend_generator \<Rightarrow> bool \<Rightarrow> backend_world \<Rightarrow> review list \<Rightarrow> nat
     \<Rightarrow> backend_world" where
  "backend_world_at h g dry_run w reviews i =
     snd (foldl (backend_process_review h g dry_run) ([], w) (take i reviews))"

text \<open>The details written so far, and the number of them with one of the given statuses.\<close>

definition details_of :: "results \<times> world \<Rightarrow> detail list" where
  "details_of s = (case details (fst s) of Some ds \<Rightarrow> ds | None \<Rightarrow> [])"

definition count_status :: "status list \<Rightarrow> detail list \<Rightarrow> int" where
  "count_status sts ds = int (length (filter (\<lambda>d. d_status d \<in> set sts) ds))"

section \<open>Example inputs\<close>

definition world0 :: world where
  "world0 = \<lparr>model_calls = 0, reply_history = [], reply_calls = []\<rparr>"

definition backend_world0 :: backend_world where
  "backend_world0 =
     \<lparr>b_model_calls = 0, b_generator_history = [], b_reply_calls = [], b_reply_history = []\<rparr>"

definition crash_review :: review where
  "crash_review =
     \<lparr>reviewId = ascii ''r1'', rating = 1, userComment = ascii ''App crashes constantly'',
      hasReply = False\<rparr>"

definition five_star_review :: review where
  "five_star_review =
     \<lparr>reviewId = ascii ''r2'', rating = 5, userComment = ascii ''Great app'',
      hasReply = False\<rparr>"

definition storefront :: "review list \<Rightarrow> int \<Rightarrow> exn + review list" where
  "storefront reviews max_results = Inr (take (nat max_results) reviews)"

definition reply_done :: "nat \<Rightarrow> pystr \<Rightarrow> pystr \<Rightarrow> api_result" where
  "reply_done n review_id reply_text = Done"

definition reply_raises :: "nat \<Rightarrow> pystr \<Rightarrow> pystr \<Rightarrow> api_result" where
  "reply_raises n review_id reply_text = ApiException (ascii ''quota exceeded'')"

definition reply_http_error :: "nat \<Rightarrow> pystr \<Rightarrow> pystr \<Rightarrow> api_result" where
  "reply_http_error n review_id reply_text = ApiHttpError (ascii ''403 Forbidden'')"

definition model_says :: "pystr \<Rightarrow> 'p client" where
  "model_says text n prompt = Text text"

definition model_raises :: "'p client" where
  "model_raises n prompt = Raises"

definition configured_env :: "prompt client \<Rightarrow> environment" where
  "configured_env client = \<lparr>GEMINI_API_KEY = Some (ascii ''key''), genai = Some client\<rparr>"

definition unconfigured_env :: "prompt client \<Rightarrow> environment" where
  "unconfigured_env client = \<lparr>GEMINI_API_KEY = None, genai = Some client\<rparr>"

definition backend_handler :: "backend_prompt client \<Rightarrow> review list \<Rightarrow> backend_reviews" where
  "backend_handler client reviews =
     \<lparr>b_enable_ai = True,
      b_ai_generator = Some \<lparr>api_key = Some (ascii ''key''), model = client\<rparr>,
      b_list_reviews = storefront reviews, b_reviews_reply = reply_done\<rparr>"

section \<open>Properties\<close>

subsection \<open>Strings\<close>


lemma lower_append: "lower (a @ b) = lower a @ lower b"
  by (simp add: lower_def)

lemma sublist_lower:
  assumes "sublist a b" shows "sublist (lower a) (lower b)"
proof -
  from assms obtain ps ss where "b = ps @ a @ ss" by (auto simp: sublist_def)
  then show ?thesis by (simp add: lower_append)
qed

lemma sublist_strip: "sublist (strip s) s"
proof -
  have 1: "sublist (dropWhile isspace s) s" by simp
  have 2: "sublist (rev (dropWhile isspace (rev t))) t" for t
    by (simp add: sublist_rev_left)
  from 2 [of "dropWhile isspace s"] 1 show ?thesis
    unfolding strip_def by (rule sublist_order.order_trans)
qed

lemma length_strip_le: "length (strip s) \<le> length s"
  using sublist_strip sublist_length_le by blast

lemma strip_fixed:
  assumes "s = [] \<or> (\<not> isspace (hd s) \<and> \<not> isspace (last s))"
  shows "strip s = s"
proof (cases "s = []")
  case True
  then show ?thesis by (simp add: strip_def)
next
  case False
  with assms have h: "\<not> isspace (hd s)" and l: "\<not> isspace (last s)" by auto
  from h have "dropWhile isspace s = s" by (simp add: dropWhile_eq_self_iff)
  moreover from l False have "dropWhile isspace (rev s) = rev s"
    by (simp add: dropWhile_eq_self_iff hd_rev)
  ultimately show ?thesis by (simp add: strip_def)
qed

lemma last_dropWhile: "dropWhile P xs \<noteq> [] \<Longrightarrow> last (dropWhile P xs) = last xs"
  by (metis last_appendR takeWhile_dropWhile_id)

lemma strip_ends:
  "strip s = [] \<or> (\<not> isspace (hd (strip s)) \<and> \<not> isspace (last (strip s)))"
proof (cases "strip s = []")
  case True
  then show ?thesis by simp
next
  case False
  define t where "t = dropWhile isspace s"
  define u where "u = dropWhile isspace (rev t)"
  have su: "strip s = rev u" by (simp add: strip_def t_def u_def)
  with False have u: "u \<noteq> []" by simp
  then have t: "t \<noteq> []" by (auto simp: u_def)
  from u have "\<not> isspace (hd u)" unfolding u_def by (rule hd_dropWhile)
  then have a: "\<not> isspace (last (strip s))" using u by (simp add: su last_rev)
  from u have "last u = last (rev t)" unfolding u_def by (rule last_dropWhile)
  then have "hd (strip s) = hd t" using u t by (simp add: su hd_rev last_rev)
  moreover from t have "\<not> isspace (hd t)" unfolding t_def by (rule hd_dropWhile)
  ultimately show ?thesis using a by simp
qed

lemma strip_strip: "strip (strip s) = strip s"
  using strip_ends [of s] by (rule strip_fixed)


subsection \<open>The validator\<close>

text \<open>
  The validator returns a text only when every gate lets the response through, and the
  text is the truncated response without its surrounding white space.
\<close>

lemma length_truncate_response: "length (truncate_response response) \<le> 350"
  by (simp add: truncate_response_def ascii_def)

lemma validate_response_Some:
  "validate_response response language = Some v \<longleftrightarrow>
     response \<noteq> [] \<and>
     \<not> list_ex (\<lambda>word. sublist word (lower (truncate_response response))) forbidden_words \<and>
     10 \<le> length (strip (truncate_response response)) \<and>
     v = strip (truncate_response response)"
  by (auto simp: validate_response_def Let_def)

lemma forbidden_sublist:
  assumes "sublist a b"
    and "list_ex (\<lambda>word. sublist word (lower a)) forbidden_words"
  shows "list_ex (\<lambda>word. sublist word (lower b)) forbidden_words"
proof -
  from assms(2) obtain word where w: "word \<in> set forbidden_words" "sublist word (lower a)"
    by (auto simp: list_ex_iff)
  from assms(1) have "sublist (lower a) (lower b)" by (rule sublist_lower)
  with w(2) have "sublist word (lower b)" by (rule sublist_order.order_trans)
  with w(1) show ?thesis by (auto simp: list_ex_iff)
qed

lemma validate_response_length:
  assumes "validate_response response language = Some v"
  shows "length v \<le> 350"
proof -
  from assms have "v = strip (truncate_response response)"
    by (simp add: validate_response_Some)
  then have "length v \<le> length (truncate_response response)"
    by (simp add: length_strip_le)
  also have "\<dots> \<le> 350" by (rule length_truncate_response)
  finally show ?thesis .
qed

lemma strip_truncated:
  assumes "length response > 350" and "\<not> isspace (hd response)"
  shows "strip (take 347 response @ ascii ''...'') = take 347 response @ ascii ''...''"
proof (rule strip_fixed, rule disjI2)
  from assms(1) have "take 347 response \<noteq> []" by auto
  then have "hd (take 347 response @ ascii ''...'') = hd response"
    by (simp add: hd_append)
  moreover have "last (take 347 response @ ascii ''...'') = 0x2E"
    by (simp add: ascii_def)
  ultimately show "\<not> isspace (hd (take 347 response @ ascii ''...'')) \<and>
      \<not> isspace (last (take 347 response @ ascii ''...''))"
    using assms(2) by (simp add: isspace_def)
qed

text \<open>
  Claim C2, as the program has it. A response of more than 350 characters that does not
  begin with white space (as every response that \<open>generate_response\<close> passes on,
  which strips the text of the model first) is cut to its first 347 characters followed
  by the ellipsis \<open>...\<close>: unless a forbidden word occurs in it, the validator
  returns exactly these 350 characters. Every text the validator returns has at most 350
  characters.
\<close>

theorem validate_response_truncates:
  "(length response > 350 \<and> \<not> isspace (hd response) \<longrightarrow>
      validate_response response language =
        (if list_ex (\<lambda>word. sublist word (lower (take 347 response @ ascii ''...'')))
              forbidden_words
         then None else Some (take 347 response @ ascii ''...'')) \<and>
      length (take 347 response @ ascii ''...'') = 350) \<and>
   (validate_response response language = Some v \<longrightarrow> length v \<le> 350)"
proof (intro conjI impI)
  assume a: "length response > 350 \<and> \<not> isspace (hd response)"
  then have ne: "response \<noteq> []" by auto
  from a have len: "length (take 347 response @ ascii ''...'') = 350"
    by (simp add: ascii_def)
  from a have st: "strip (take 347 response @ ascii ''...'') = take 347 response @ ascii ''...''"
    by (simp add: strip_truncated)
  from a have tr: "truncate_response response = take 347 response @ ascii ''...''"
    by (simp add: truncate_response_def)
  show "validate_response response language =
        (if list_ex (\<lambda>word. sublist word (lower (take 347 response @ ascii ''...'')))
              forbidden_words
         then None else Some (take 347 response @ ascii ''...''))"
    using ne len by (simp add: validate_response_def tr st Let_def)
  show "length (take 347 response @ ascii ''...'') = 350" by (rule len)
next
  assume "validate_response response language = Some v"
  then show "length v \<le> 350" by (rule validate_response_length)
qed

text \<open>
  Claim C3. Whenever a forbidden word occurs in the lowercased, possibly truncated
  response, the validator returns nothing; a text it returns contains no forbidden word,
  whatever the case of its letters; and the response
  \<open>Sorry for the inconvenience, we'll fix it soon\<close> is rejected.
\<close>

theorem validate_response_forbidden:
  "(list_ex (\<lambda>word. sublist word (lower (truncate_response response))) forbidden_words \<longrightarrow>
      validate_response response language = None) \<and>
   (validate_response response language = Some v \<longrightarrow>
      \<not> list_ex (\<lambda>word. sublist word (lower v)) forbidden_words) \<and>
   validate_response
     (ascii ''Sorry for the inconvenience, we'' @ [0x27] @ ascii ''ll fix it soon'') language = None"
proof (intro conjI impI)
  assume "list_ex (\<lambda>word. sublist word (lower (truncate_response response))) forbidden_words"
  then show "validate_response response language = None"
    by (simp add: validate_response_def Let_def)
next
  assume a: "validate_response response language = Some v"
  then have v: "v = strip (truncate_response response)"
    and nf: "\<not> list_ex (\<lambda>word. sublist word (lower (truncate_response response))) forbidden_words"
    by (simp_all add: validate_response_Some)
  have "sublist v (truncate_response response)" unfolding v by (rule sublist_strip)
  with nf show "\<not> list_ex (\<lambda>word. sublist word (lower v)) forbidden_words"
    using forbidden_sublist by blast
next
  show "validate_response
     (ascii ''Sorry for the inconvenience, we'' @ [0x27] @ ascii ''ll fix it soon'') language = None"
    by (simp add: validate_response_def truncate_response_def ascii_def lower_def lower_cp_def
        forbidden_words_def sublist_code(3) Let_def)
qed

text \<open>
  Claim C10. Validation is idempotent: a text the validator has returned is returned
  unchanged when validated again.
\<close>

theorem validate_response_idempotent:
  "validate_response t l = Some v \<Longrightarrow> validate_response v l = Some v"
proof -
  assume a: "validate_response t l = Some v"
  then have v: "v = strip (truncate_response t)"
    and nf: "\<not> list_ex (\<lambda>word. sublist word (lower (truncate_response t))) forbidden_words"
    and ln: "10 \<le> length v"
    by (simp_all add: validate_response_Some)
  from a have "length v \<le> 350" by (rule validate_response_length)
  then have tr: "truncate_response v = v" by (simp add: truncate_response_def)
  have "sublist v (truncate_response t)" unfolding v by (rule sublist_strip)
  with nf have nf': "\<not> list_ex (\<lambda>word. sublist word (lower v)) forbidden_words"
    using forbidden_sublist by blast
  have st: "strip v = v" unfolding v by (rule strip_strip)
  from ln have "v \<noteq> []" by auto
  with nf' ln show ?thesis by (simp add: validate_response_Some tr st)
qed


lemma strip_leading_space: "isspace c \<Longrightarrow> strip (c # s) = strip s"
  by (simp add: strip_def)

lemma lower_unchanged: "\<forall>c \<in> set s. lower_cp c = [c] \<Longrightarrow> lower s = s"
  by (induction s) (simp_all add: lower_def)

lemma not_sublist_by_letter: "c \<in> set word \<Longrightarrow> c \<notin> set s \<Longrightarrow> \<not> sublist word s"
  using set_mono_sublist by fastforce

lemma forbidden_letters:
  "list_all (\<lambda>word. \<exists>c \<in> set word. c \<in> {0x62, 0x64, 0x68, 0x70, 0x72, 0x73, 0x74, 0x75, 0x77})
     forbidden_words"
  by (simp add: forbidden_words_def ascii_def)

lemma no_forbidden_word_without_letters:
  assumes "set s \<inter> {0x62, 0x64, 0x68, 0x70, 0x72, 0x73, 0x74, 0x75, 0x77} = {}"
  shows "\<not> list_ex (\<lambda>word. sublist word s) forbidden_words"
proof -
  have "\<not> sublist word s" if "word \<in> set forbidden_words" for word
  proof -
    from that forbidden_letters
    have "\<exists>c \<in> set word. c \<in> {0x62, 0x64, 0x68, 0x70, 0x72, 0x73, 0x74, 0x75, 0x77}"
      unfolding list_all_iff by blast
    then obtain c where "c \<in> set word" "c \<notin> set s" using assms by blast
    then show ?thesis by (rule not_sublist_by_letter)
  qed
  then show ?thesis unfolding list_ex_iff by blast
qed

text \<open>
  Claim C2 as stated fails for a response that begins with white space: the validator
  strips the truncated text, so a response of 400 characters, a space followed by 399
  letters \<open>a\<close>, passes every gate and comes back with 349 characters.
\<close>

theorem validate_response_leading_space_counterexample:
  "length (0x20 # replicate 399 (0x61::nat)) = 400 \<and>
   validate_response (0x20 # replicate 399 0x61) (ascii ''en'') =
     Some (replicate 346 0x61 @ ascii ''...'') \<and>
   length (replicate 346 (0x61::nat) @ ascii ''...'') = 349"
proof -
  let ?t = "0x20 # replicate 346 (0x61::nat) @ ascii ''...''"
  have tr: "truncate_response (0x20 # replicate 399 0x61) = ?t"
    by (simp add: truncate_response_def)
  have set_t: "set ?t = {0x20, 0x61, 0x2E}"
    by (auto simp: ascii_def)
  have "\<forall>c \<in> set ?t. lower_cp c = [c]"
    unfolding set_t by (simp add: lower_cp_def)
  then have lo: "lower ?t = ?t" by (rule lower_unchanged)
  have "set ?t \<inter> {0x62, 0x64, 0x68, 0x70, 0x72, 0x73, 0x74, 0x75, 0x77} = {}"
    unfolding set_t by simp
  then have nf: "\<not> list_ex (\<lambda>word. sublist word ?t) forbidden_words"
    by (rule no_forbidden_word_without_letters)
  have "strip ?t = strip (replicate 346 0x61 @ ascii ''...'')"
    by (rule strip_leading_space) (simp add: isspace_def)
  also have "\<dots> = replicate 346 0x61 @ ascii ''...''"
    by (rule strip_fixed) (simp add: hd_append isspace_def ascii_def)
  finally have st: "strip ?t = replicate 346 0x61 @ ascii ''...''" .
  have len: "length (replicate 346 (0x61::nat) @ ascii ''...'') = 349"
    by (simp add: ascii_def)
  show ?thesis
    using nf len by (simp add: validate_response_def tr lo st Let_def)
qed


lemmas string_eval =
  ascii_def lower_def lower_cp_def strip_def isspace_def sublist_code(3)

text \<open>
  The response of 400 letters \<open>a\<close> is cut to 347 letters and the ellipsis.
\<close>

theorem validate_response_truncates_witness:
  "length (replicate 400 (0x61::nat)) > 350 \<and> \<not> isspace (hd (replicate 400 0x61)) \<and>
   validate_response (replicate 400 0x61) (ascii ''en'') =
     Some (replicate 347 0x61 @ ascii ''...'') \<and>
   length (replicate 347 (0x61::nat) @ ascii ''...'') = 350"
proof -
  let ?t = "replicate 347 (0x61::nat) @ ascii ''...''"
  have h: "length (replicate 400 (0x61::nat)) > 350 \<and> \<not> isspace (hd (replicate 400 0x61))"
    by (simp add: isspace_def)
  have set_t: "set ?t = {0x61, 0x2E}" by (auto simp: ascii_def)
  have "\<forall>c \<in> set ?t. lower_cp c = [c]" unfolding set_t by (simp add: lower_cp_def)
  then have lo: "lower ?t = ?t" by (rule lower_unchanged)
  have "set ?t \<inter> {0x62, 0x64, 0x68, 0x70, 0x72, 0x73, 0x74, 0x75, 0x77} = {}"
    unfolding set_t by simp
  then have nf: "\<not> list_ex (\<lambda>word. sublist word ?t) forbidden_words"
    by (rule no_forbidden_word_without_letters)
  have tk: "take 347 (replicate 400 (0x61::nat)) = replicate 347 0x61" by simp
  from validate_response_truncates [of "replicate 400 0x61" "ascii ''en''" ?t] h
  show ?thesis unfolding tk lo using nf by simp
qed

text \<open>
  \<open>We are sorry\<close> is rejected, and \<open>Thank you very much\<close> is returned and has no
  forbidden word.
\<close>

theorem validate_response_forbidden_witness:
  "list_ex (\<lambda>word. sublist word (lower (truncate_response (ascii ''We are sorry''))))
     forbidden_words \<and>
   validate_response (ascii ''We are sorry'') (ascii ''en'') = None \<and>
   validate_response (ascii ''Thank you very much'') (ascii ''en'') =
     Some (ascii ''Thank you very much'') \<and>
   \<not> list_ex (\<lambda>word. sublist word (lower (ascii ''Thank you very much''))) forbidden_words"
proof -
  have h1: "list_ex (\<lambda>word. sublist word (lower (truncate_response (ascii ''We are sorry''))))
     forbidden_words"
    by (simp add: truncate_response_def forbidden_words_def string_eval)
  have h2: "validate_response (ascii ''Thank you very much'') (ascii ''en'') =
     Some (ascii ''Thank you very much'')"
    by (simp add: validate_response_def truncate_response_def forbidden_words_def string_eval
        Let_def)
  from validate_response_forbidden [of "ascii ''We are sorry''" "ascii ''en''"] h1
  have a: "validate_response (ascii ''We are sorry'') (ascii ''en'') = None" by blast
  from validate_response_forbidden
    [of "ascii ''Thank you very much''" "ascii ''en''" "ascii ''Thank you very much''"] h2
  have b: "\<not> list_ex (\<lambda>word. sublist word (lower (ascii ''Thank you very much'')))
     forbidden_words" by blast
  from h1 a h2 b show ?thesis by blast
qed

text \<open>
  \<open>Thank you very much!\<close> with a trailing space is returned without the space, and
  then returned as it is.
\<close>

theorem validate_response_idempotent_witness:
  "validate_response (ascii ''Thank you very much! '') (ascii ''en'') =
     Some (ascii ''Thank you very much!'') \<and>
   validate_response (ascii ''Thank you very much!'') (ascii ''en'') =
     Some (ascii ''Thank you very much!'')"
proof -
  have h: "validate_response (ascii ''Thank you very much! '') (ascii ''en'') =
     Some (ascii ''Thank you very much!'')"
    by (simp add: validate_response_def truncate_response_def forbidden_words_def string_eval
        Let_def)
  from h validate_response_idempotent [OF h] show ?thesis by blast
qed

subsection \<open>Rule selection\<close>

text \<open>
  Claim C8. The rule is a total function of the rating: 1 and 2 give
  \<open>apologize_and_support\<close>, 3 gives \<open>neutral_improvement\<close>, 4 and 5 give
  \<open>thank_and_engage\<close>, and every rating below 1 or above 5 gives the default
  \<open>neutral_improvement\<close>.
\<close>

theorem rule_for_table:
  "rule_for 1 = apologize_and_support \<and> rule_for 2 = apologize_and_support \<and>
   rule_for 3 = neutral_improvement \<and>
   rule_for 4 = thank_and_engage \<and> rule_for 5 = thank_and_engage \<and>
   (r < 1 \<or> 5 < r \<longrightarrow> rule_for r = neutral_improvement)"
  by (auto simp: rule_for_def response_rules_def)

text \<open>
  The ratings 0 and 6 give the default.
\<close>

theorem rule_for_table_witness:
  "(0::int) < 1 \<and> rule_for 0 = neutral_improvement \<and>
   (5::int) < 6 \<and> rule_for 6 = neutral_improvement"
  using rule_for_table [of 0] rule_for_table [of 6] by simp


lemmas keyword_tables =
  turkish_words_def spanish_words_def french_words_def german_words_def russian_words_def
  indonesian_words_def persian_words_def

subsection \<open>Language detection\<close>

text \<open>
  Claim C7, as the program has it. The detector of ai\_response.py is the scan of the
  specification: the languages are tried in the order tr, es, fr, de, ru, id, fa, the
  first one with a keyword that occurs in the lowercased text wins, and \<open>'en'\<close> is
  the default. It answers on every text with one of the eight codes, with \<open>'en'\<close>
  on the empty text and with \<open>'tr'\<close> on a text with both a Turkish and a Spanish
  keyword. The detector of the backend service is another one: it answers \<open>'tr'\<close>
  when the text has one of the Turkish letters of its list, and \<open>'en'\<close> otherwise.
\<close>

theorem detect_language_priority:
  "detect_language text = spec_detect text \<and>
   detect_language text \<in>
     set (map ascii [''en'', ''tr'', ''es'', ''fr'', ''de'', ''ru'', ''id'', ''fa'']) \<and>
   detect_language [] = ascii ''en'' \<and>
   (any_word_in turkish_words (lower text) \<and> any_word_in spanish_words (lower text) \<longrightarrow>
      detect_language text = ascii ''tr'') \<and>
   backend_detect_language text =
     (if list_ex (\<lambda>char. char \<in> set text) turkish_indicators then ascii ''tr''
      else ascii ''en'')"
proof (intro conjI impI)
  show "detect_language text = spec_detect text"
    by (simp add: detect_language_def spec_detect_def spec_language_table_def Let_def)
  show "detect_language text \<in>
     set (map ascii [''en'', ''tr'', ''es'', ''fr'', ''de'', ''ru'', ''id'', ''fa''])"
    by (simp add: detect_language_def Let_def)
  show "detect_language [] = ascii ''en''"
    by (simp add: detect_language_def any_word_in_def keyword_tables lower_def ascii_def)
  show "backend_detect_language text =
     (if list_ex (\<lambda>char. char \<in> set text) turkish_indicators then ascii ''tr''
      else ascii ''en'')"
    by (simp add: backend_detect_language_def Let_def)
next
  assume "any_word_in turkish_words (lower text) \<and> any_word_in spanish_words (lower text)"
  then show "detect_language text = ascii ''tr''"
    by (simp add: detect_language_def)
qed

text \<open>
  A text with the Turkish keyword U+00E7 \<open>ok\<close> and the Spanish keywords \<open>muy\<close> and
  \<open>bueno\<close> is detected as Turkish.
\<close>

theorem detect_language_priority_witness:
  "any_word_in turkish_words (lower ([0xE7, 0x6F, 0x6B] @ ascii '' muy bueno'')) \<and>
   any_word_in spanish_words (lower ([0xE7, 0x6F, 0x6B] @ ascii '' muy bueno'')) \<and>
   detect_language ([0xE7, 0x6F, 0x6B] @ ascii '' muy bueno'') = ascii ''tr''"
proof -
  have h: "any_word_in turkish_words (lower ([0xE7, 0x6F, 0x6B] @ ascii '' muy bueno'')) \<and>
   any_word_in spanish_words (lower ([0xE7, 0x6F, 0x6B] @ ascii '' muy bueno''))"
    by (simp add: any_word_in_def keyword_tables string_eval)
  with detect_language_priority [of "[0xE7, 0x6F, 0x6B] @ ascii '' muy bueno''"]
  show ?thesis by blast
qed

text \<open>
  Claim C7 as stated fails for the detector of the backend service: \<open>harika muy\<close> has
  the Turkish keyword \<open>harika\<close> and the Spanish keyword \<open>muy\<close>, and the backend
  answers \<open>'en'\<close>.
\<close>

theorem backend_detect_language_counterexample:
  "any_word_in turkish_words (lower (ascii ''harika muy'')) \<and>
   any_word_in spanish_words (lower (ascii ''harika muy'')) \<and>
   backend_detect_language (ascii ''harika muy'') = ascii ''en'' \<and>
   backend_detect_language (ascii ''harika muy'') \<noteq> ascii ''tr''"
  by (simp add: any_word_in_def keyword_tables string_eval backend_detect_language_def
      turkish_indicators_def Let_def)


subsection \<open>The loop of the orchestrator\<close>

text \<open>
  A loop whose body appends one entry to an output list appends as many entries as it
  has steps, and the entry at a position is the one written by the step at that position.
\<close>

lemma foldl_appends:
  fixes f :: "'s \<Rightarrow> 'x \<Rightarrow> 's" and out :: "'s \<Rightarrow> 'd list"
  assumes step: "\<And>s x. I s \<Longrightarrow> I (f s x) \<and> (\<exists>d. out (f s x) = out s @ [d])"
    and "I s"
  shows "I (foldl f s xs) \<and> (\<exists>ds. out (foldl f s xs) = out s @ ds \<and> length ds = length xs)"
  using \<open>I s\<close>
proof (induction xs arbitrary: s)
  case Nil
  then show ?case by simp
next
  case (Cons x xs)
  from step [OF Cons.prems] obtain d where i: "I (f s x)" and d: "out (f s x) = out s @ [d]"
    by blast
  from Cons.IH [OF i] obtain ds where "I (foldl f (f s x) xs)"
    and "out (foldl f (f s x) xs) = out (f s x) @ ds" and "length ds = length xs"
    by blast
  then show ?case using d by (auto intro: exI [of _ "d # ds"])
qed

lemma foldl_appends_nth:
  fixes f :: "'s \<Rightarrow> 'x \<Rightarrow> 's" and out :: "'s \<Rightarrow> 'd list"
  assumes step: "\<And>s x. I s \<Longrightarrow> I (f s x) \<and> (\<exists>d. out (f s x) = out s @ [d])"
    and "I s" and "i < length xs"
  shows "out (foldl f s xs) ! (length (out s) + i) =
         last (out (f (foldl f s (take i xs)) (xs ! i)))"
proof -
  let ?s1 = "foldl f s (take i xs)"
  let ?s2 = "f ?s1 (xs ! i)"
  from foldl_appends [of I f out, OF step \<open>I s\<close>, of "take i xs"] \<open>i < length xs\<close>
  obtain ds1 where i1: "I ?s1" and o1: "out ?s1 = out s @ ds1" and l1: "length ds1 = i"
    by auto
  from step [OF i1] obtain d where i2: "I ?s2" and o2: "out ?s2 = out ?s1 @ [d]" by blast
  from foldl_appends [of I f out, OF step i2, of "drop (Suc i) xs"]
  obtain ds3 where o3: "out (foldl f ?s2 (drop (Suc i) xs)) = out ?s2 @ ds3" by blast
  have "xs = take i xs @ xs ! i # drop (Suc i) xs"
    using \<open>i < length xs\<close> by (rule id_take_nth_drop)
  then have "foldl f s xs = foldl f ?s2 (drop (Suc i) xs)"
    by (metis foldl_Cons foldl_append)
  then have "out (foldl f s xs) = out s @ ds1 @ [d] @ ds3" using o1 o2 o3 by simp
  then have "out (foldl f s xs) ! (length (out s) + i) = d"
    using l1 by (simp add: nth_append)
  then show ?thesis using o2 by simp
qed

lemma process_review_appends:
  assumes "details (fst s) \<noteq> None"
  shows "details (fst (process_review h g dry_run s rv)) \<noteq> None \<and>
         (\<exists>d. details_of (process_review h g dry_run s rv) = details_of s @ [d])"
  using assms
  by (cases s)
     (auto simp: process_review_def append_detail_def details_of_def Let_def
           split: prod.splits option.splits sum.splits bool.splits)


lemma strip_Nil: "strip [] = []"
  by (simp add: strip_def)

lemma foldl_invariant:
  assumes "\<And>s x. I s \<Longrightarrow> I (f s x)" and "I s"
  shows "I (foldl f s xs)"
  using \<open>I s\<close> by (induction xs arbitrary: s) (simp_all add: assms(1))

lemma generate_response_reply_calls:
  "reply_calls (snd (generate_response g w review_text r review_id)) = reply_calls w"
  by (simp add: generate_response_def log_reply_def Let_def
      split: option.splits model_reply.splits)

lemma generate_response_nonempty:
  assumes "fst (generate_response g w review_text r review_id) = Some text"
  shows "text \<noteq> []"
  using assms
  by (auto simp: generate_response_def Let_def
      split: option.splits model_reply.splits if_splits)


lemma process_review_last:
  assumes "details (fst s) \<noteq> None"
  shows "last (details_of (process_review h g dry_run s rv)) =
    (if hasReply rv then
       \<lparr>d_review_id = reviewId rv, d_status = st_skipped,
        d_reason = Some already_has_reply, d_response = None\<rparr>
     else if strip (userComment rv) = [] then
       \<lparr>d_review_id = reviewId rv, d_status = st_skipped,
        d_reason = Some no_comment, d_response = None\<rparr>
     else
       (case generate_response g (snd s) (userComment rv) (rating rv) (reviewId rv) of
          (None, w1) \<Rightarrow>
            \<lparr>d_review_id = reviewId rv, d_status = st_failed,
             d_reason = Some ai_generation_failed, d_response = None\<rparr>
        | (Some text, w1) \<Rightarrow>
            if dry_run then
              \<lparr>d_review_id = reviewId rv, d_status = st_dry_run_success,
               d_reason = None, d_response = Some text\<rparr>
            else
              (case fst (reply_to_review h w1 (reviewId rv) text) of
                 Inr True \<Rightarrow>
                   \<lparr>d_review_id = reviewId rv, d_status = st_success,
                    d_reason = None, d_response = Some text\<rparr>
               | Inr False \<Rightarrow>
                   \<lparr>d_review_id = reviewId rv, d_status = st_failed,
                    d_reason = Some api_post_failed, d_response = Some text\<rparr>
               | Inl e \<Rightarrow>
                   \<lparr>d_review_id = reviewId rv, d_status = st_failed,
                    d_reason = Some (str_exn e), d_response = None\<rparr>)))"
proof (cases s)
  case (Pair res w)
  with assms obtain ds where ds: "details res = Some ds" by auto
  show ?thesis
  proof (cases "generate_response g w (userComment rv) (rating rv) (reviewId rv)")
    case g: (Pair ai w1)
    show ?thesis
    proof (cases ai)
      case None
      with Pair ds g show ?thesis
        by (auto simp: process_review_def append_detail_def details_of_def strip_Nil Let_def)
    next
      case (Some reply)
      with g have "reply \<noteq> []"
        using generate_response_nonempty [of g w "userComment rv" "rating rv" "reviewId rv" reply]
        by simp
      with Pair ds g Some show ?thesis
        by (auto simp: process_review_def append_detail_def details_of_def strip_Nil Let_def
            split: prod.splits sum.splits bool.splits)
    qed
  qed
qed

lemma process_review_processed:
  "processed (fst (process_review h g dry_run s rv)) = processed (fst s) + 1"
  by (cases s)
     (auto simp: process_review_def append_detail_def Let_def
           split: prod.splits option.splits sum.splits bool.splits)

lemma reply_to_review_calls:
  "reply_calls (snd (reply_to_review h w review_id reply_text)) =
   reply_calls w @ [(review_id, reply_text)]"
  by (simp add: reply_to_review_def Let_def split: api_result.splits)

lemma process_review_dry_run_reply_calls:
  "reply_calls (snd (process_review h g True s rv)) = reply_calls (snd s)"
proof (cases s)
  case (Pair res w)
  have "reply_calls w1 = reply_calls w"
    if "generate_response g w (userComment rv) (rating rv) (reviewId rv) = (ai, w1)" for ai w1
    using generate_response_reply_calls
      [of g w "userComment rv" "rating rv" "reviewId rv"] that by simp
  with Pair show ?thesis
    by (auto simp: process_review_def Let_def split: prod.splits option.splits)
qed



lemma auto_reply_to_reviews_run:
  assumes "enable_ai h" and "ai_generator h = Some g"
    and "list_reviews h max_results = Inr reviews" and "reviews \<noteq> []"
  shows "auto_reply_to_reviews h w max_results dry_run =
    (Inr (fst (foldl (process_review h g dry_run) (empty_results, w) reviews)),
     snd (foldl (process_review h g dry_run) (empty_results, w) reviews))"
  using assms by (simp add: auto_reply_to_reviews_def split: prod.splits)

lemma loop_details:
  "\<exists>ds. details (fst (foldl (process_review h g dry_run) (empty_results, w) reviews)) = Some ds \<and>
        details_of (foldl (process_review h g dry_run) (empty_results, w) reviews) = ds \<and>
        length ds = length reviews"
proof -
  have "details (fst (empty_results, w)) \<noteq> None" by (simp add: empty_results_def)
  from foldl_appends [of "\<lambda>s. details (fst s) \<noteq> None" "process_review h g dry_run"
      details_of, OF process_review_appends this, of reviews]
  show ?thesis by (auto simp: details_of_def empty_results_def)
qed

lemma loop_outcome:
  assumes "i < length reviews"
  shows "details_of (foldl (process_review h g dry_run) (empty_results, w) reviews) ! i =
    (let rv = reviews ! i in
     if hasReply rv then
       \<lparr>d_review_id = reviewId rv, d_status = st_skipped,
        d_reason = Some already_has_reply, d_response = None\<rparr>
     else if strip (userComment rv) = [] then
       \<lparr>d_review_id = reviewId rv, d_status = st_skipped,
        d_reason = Some no_comment, d_response = None\<rparr>
     else
       (case generate_response g (world_at h g dry_run w reviews i)
               (userComment rv) (rating rv) (reviewId rv) of
          (None, w1) \<Rightarrow>
            \<lparr>d_review_id = reviewId rv, d_status = st_failed,
             d_reason = Some ai_generation_failed, d_response = None\<rparr>
        | (Some reply, w1) \<Rightarrow>
            if dry_run then
              \<lparr>d_review_id = reviewId rv, d_status = st_dry_run_success,
               d_reason = None, d_response = Some reply\<rparr>
            else
              (case fst (reply_to_review h w1 (reviewId rv) reply) of
                 Inr True \<Rightarrow>
                   \<lparr>d_review_id = reviewId rv, d_status = st_success,
                    d_reason = None, d_response = Some reply\<rparr>
               | Inr False \<Rightarrow>
                   \<lparr>d_review_id = reviewId rv, d_status = st_failed,
                    d_reason = Some api_post_failed, d_response = Some reply\<rparr>
               | Inl e \<Rightarrow>
                   \<lparr>d_review_id = reviewId rv, d_status = st_failed,
                    d_reason = Some (str_exn e), d_response = None\<rparr>)))"
proof -
  let ?f = "process_review h g dry_run"
  have e: "details (fst (empty_results, w)) \<noteq> None" by (simp add: empty_results_def)
  have "details_of (foldl ?f (empty_results, w) reviews) !
          (length (details_of (empty_results, w)) + i) =
        last (details_of (?f (foldl ?f (empty_results, w) (take i reviews)) (reviews ! i)))"
    by (rule foldl_appends_nth [of "\<lambda>s. details (fst s) \<noteq> None" ?f details_of,
          OF process_review_appends e assms])
  then have n: "details_of (foldl ?f (empty_results, w) reviews) ! i =
        last (details_of (?f (foldl ?f (empty_results, w) (take i reviews)) (reviews ! i)))"
    by (simp add: details_of_def empty_results_def)
  from loop_details [of h g dry_run w "take i reviews"]
  have "details (fst (foldl ?f (empty_results, w) (take i reviews))) \<noteq> None" by auto
  from process_review_last [OF this, of h g dry_run "reviews ! i"] n
  show ?thesis by (simp add: world_at_def Let_def)
qed

lemma loop_ids:
  "map d_review_id (details_of (foldl (process_review h g dry_run) (empty_results, w) reviews)) =
   map reviewId reviews"
proof (rule nth_equalityI)
  from loop_details [of h g dry_run w reviews]
  show "length (map d_review_id
      (details_of (foldl (process_review h g dry_run) (empty_results, w) reviews))) =
    length (map reviewId reviews)" by auto
next
  fix i
  assume "i < length (map d_review_id
      (details_of (foldl (process_review h g dry_run) (empty_results, w) reviews)))"
  with loop_details [of h g dry_run w reviews] have i: "i < length reviews" by auto
  then have "d_review_id
      (details_of (foldl (process_review h g dry_run) (empty_results, w) reviews) ! i) =
    reviewId (reviews ! i)"
    by (simp add: loop_outcome Let_def split: prod.splits option.splits sum.splits bool.splits)
  with i loop_details [of h g dry_run w reviews]
  show "map d_review_id
      (details_of (foldl (process_review h g dry_run) (empty_results, w) reviews)) ! i =
    map reviewId reviews ! i" by auto
qed

lemma loop_processed:
  "processed (fst (foldl (process_review h g dry_run) (empty_results, w) reviews)) =
   int (length reviews)"
proof -
  have "processed (fst (foldl (process_review h g dry_run) s xs)) =
        processed (fst s) + int (length xs)" for s xs
    by (induction xs arbitrary: s) (simp_all add: process_review_processed)
  then show ?thesis by (simp add: empty_results_def)
qed

lemma loop_dry_run_reply_calls:
  "reply_calls (snd (foldl (process_review h g True) (empty_results, w) reviews)) =
   reply_calls w"
  by (rule foldl_invariant [of "\<lambda>s. reply_calls (snd s) = reply_calls w"])
     (simp_all add: process_review_dry_run_reply_calls)



lemma backend_process_review_appends:
  "\<exists>d. fst (backend_process_review h g dry_run s rv) = fst s @ [d]"
  by (cases s)
     (auto simp: backend_process_review_def Let_def
           split: prod.splits option.splits sum.splits)

lemma backend_process_review_skipped:
  "bd_status (last (fst (backend_process_review h g dry_run s rv))) = bs_skipped \<longleftrightarrow>
   hasReply rv \<or> rating rv \<ge> 5"
  by (cases s)
     (auto simp: backend_process_review_def backend_skip_def backend_replied_def Let_def
           split: prod.splits option.splits sum.splits)

lemma backend_process_review_preview:
  assumes "\<not> hasReply rv" and "rating rv < 5"
    and "fst (backend_generate_response g (snd s) (userComment rv) (rating rv) (reviewId rv)) =
         Some reply"
    and "reply \<noteq> []"
  shows "last (fst (backend_process_review h g True s rv)) = backend_replied rv reply bs_preview"
  using assms
  by (cases s) (auto simp: backend_process_review_def Let_def split: prod.splits)

lemma backend_generate_response_reply_calls:
  "b_reply_calls (snd (backend_generate_response g w review_text r review_id)) = b_reply_calls w"
  by (simp add: backend_generate_response_def Let_def split: model_reply.splits)

lemma backend_process_review_dry_run_reply_calls:
  "b_reply_calls (snd (backend_process_review h g True s rv)) = b_reply_calls (snd s)"
proof (cases s)
  case (Pair res w)
  have "b_reply_calls w1 = b_reply_calls w"
    if "backend_generate_response g w (userComment rv) (rating rv) (reviewId rv) = (ai, w1)"
    for ai w1
    using backend_generate_response_reply_calls
      [of g w "userComment rv" "rating rv" "reviewId rv"] that by simp
  with Pair show ?thesis
    by (auto simp: backend_process_review_def Let_def split: prod.splits)
qed

lemma backend_auto_reply_to_reviews_run:
  assumes "b_enable_ai h" and "b_ai_generator h = Some g"
    and "b_list_reviews h max_results = Inr reviews"
  shows "backend_auto_reply_to_reviews h w max_results dry_run =
    (Inr (fst (foldl (backend_process_review h g dry_run) ([], w) reviews)),
     snd (foldl (backend_process_review h g dry_run) ([], w) reviews))"
  using assms by (simp add: backend_auto_reply_to_reviews_def split: prod.splits)

lemma backend_loop_length:
  "length (fst (foldl (backend_process_review h g dry_run) ([], w) reviews)) = length reviews"
proof -
  from foldl_appends [of "\<lambda>s. True" "backend_process_review h g dry_run" fst,
      of "([], w)" reviews] backend_process_review_appends
  show ?thesis by auto
qed

lemma backend_loop_nth:
  assumes "i < length reviews"
  shows "fst (foldl (backend_process_review h g dry_run) ([], w) reviews) ! i =
    last (fst (backend_process_review h g dry_run
      (foldl (backend_process_review h g dry_run) ([], w) (take i reviews)) (reviews ! i)))"
proof -
  have "fst (foldl (backend_process_review h g dry_run) ([], w) reviews) !
          (length (fst (([], w) :: backend_detail list \<times> backend_world)) + i) =
    last (fst (backend_process_review h g dry_run
      (foldl (backend_process_review h g dry_run) ([], w) (take i reviews)) (reviews ! i)))"
    by (rule foldl_appends_nth [of "\<lambda>s. True" "backend_process_review h g dry_run" fst])
       (simp_all add: backend_process_review_appends assms)
  then show ?thesis by simp
qed

lemma backend_loop_dry_run_reply_calls:
  "b_reply_calls (snd (foldl (backend_process_review h g True) ([], w) reviews)) =
   b_reply_calls w"
  by (rule foldl_invariant [of "\<lambda>s. b_reply_calls (snd s) = b_reply_calls w"])
     (simp_all add: backend_process_review_dry_run_reply_calls)


lemma process_review_successful:
  assumes "details (fst s) \<noteq> None \<and>
           successful (fst s) = count_status [st_dry_run_success, st_success] (details_of s)"
  shows "details (fst (process_review h g dry_run s rv)) \<noteq> None \<and>
         successful (fst (process_review h g dry_run s rv)) =
           count_status [st_dry_run_success, st_success]
             (details_of (process_review h g dry_run s rv))"
  using assms
  by (cases s)
     (auto simp: process_review_def append_detail_def details_of_def count_status_def Let_def
           split: prod.splits option.splits sum.splits bool.splits)

lemma loop_successful:
  "successful (fst (foldl (process_review h g dry_run) (empty_results, w) reviews)) =
   count_status [st_dry_run_success, st_success]
     (details_of (foldl (process_review h g dry_run) (empty_results, w) reviews))"
proof -
  have "details (fst (foldl (process_review h g dry_run) (empty_results, w) reviews)) \<noteq> None \<and>
    successful (fst (foldl (process_review h g dry_run) (empty_results, w) reviews)) =
    count_status [st_dry_run_success, st_success]
      (details_of (foldl (process_review h g dry_run) (empty_results, w) reviews))"
    by (rule foldl_invariant
        [of "\<lambda>s. details (fst s) \<noteq> None \<and>
               successful (fst s) = count_status [st_dry_run_success, st_success] (details_of s)"])
       (simp_all add: process_review_successful empty_results_def details_of_def
          count_status_def)
  then show ?thesis by simp
qed

subsection \<open>Skipping\<close>

text \<open>
  Claim C1, as the program has it. In a batch processed by \<open>auto_reply_to_reviews\<close>
  of reviews.py every review gets one detail, and its status is \<open>skipped\<close> if and
  only if the review already has a reply or its text is empty or white space only,
  whatever its rating. In a batch processed by \<open>auto_reply_to_reviews\<close> of the
  backend service the status is \<open>skipped\<close> if and only if the review already has a
  reply or its rating is 5 or more.
\<close>

theorem skipped_exactly_when:
  "(enable_ai h \<and> ai_generator h = Some g \<and> list_reviews h max_results = Inr reviews \<and>
    i < length reviews \<longrightarrow>
      (\<exists>res w' ds. auto_reply_to_reviews h w max_results dry_run = (Inr res, w') \<and>
         details res = Some ds \<and> length ds = length reviews \<and>
         d_review_id (ds ! i) = reviewId (reviews ! i) \<and>
         (d_status (ds ! i) = st_skipped \<longleftrightarrow>
            hasReply (reviews ! i) \<or> strip (userComment (reviews ! i)) = []))) \<and>
   (b_enable_ai hb \<and> b_ai_generator hb = Some gb \<and>
    b_list_reviews hb max_results = Inr reviews \<and> i < length reviews \<longrightarrow>
      (\<exists>ds w'. backend_auto_reply_to_reviews hb wb max_results dry_run = (Inr ds, w') \<and>
         length ds = length reviews \<and>
         (bd_status (ds ! i) = bs_skipped \<longleftrightarrow>
            hasReply (reviews ! i) \<or> rating (reviews ! i) \<ge> 5)))"
proof (intro conjI impI)
  assume a: "enable_ai h \<and> ai_generator h = Some g \<and>
    list_reviews h max_results = Inr reviews \<and> i < length reviews"
  let ?s = "foldl (process_review h g dry_run) (empty_results, w) reviews"
  from a have ne: "reviews \<noteq> []" by auto
  from a ne have run: "auto_reply_to_reviews h w max_results dry_run = (Inr (fst ?s), snd ?s)"
    by (simp add: auto_reply_to_reviews_run)
  from loop_details [of h g dry_run w reviews] obtain ds
    where ds: "details (fst ?s) = Some ds" "details_of ?s = ds" "length ds = length reviews"
    by blast
  from a have i: "i < length reviews" by simp
  have id: "d_review_id (ds ! i) = reviewId (reviews ! i)"
    using loop_ids [of h g dry_run w reviews] ds i by (metis nth_map)
  have sk: "d_status (ds ! i) = st_skipped \<longleftrightarrow>
       hasReply (reviews ! i) \<or> strip (userComment (reviews ! i)) = []"
    unfolding ds(2) [symmetric] loop_outcome [OF i]
    by (simp add: Let_def split: prod.splits option.splits sum.splits bool.splits)
  from run ds id sk
  show "\<exists>res w' ds. auto_reply_to_reviews h w max_results dry_run = (Inr res, w') \<and>
         details res = Some ds \<and> length ds = length reviews \<and>
         d_review_id (ds ! i) = reviewId (reviews ! i) \<and>
         (d_status (ds ! i) = st_skipped \<longleftrightarrow>
            hasReply (reviews ! i) \<or> strip (userComment (reviews ! i)) = [])"
    by blast
next
  assume a: "b_enable_ai hb \<and> b_ai_generator hb = Some gb \<and>
    b_list_reviews hb max_results = Inr reviews \<and> i < length reviews"
  let ?s = "foldl (backend_process_review hb gb dry_run) ([], wb) reviews"
  from a have run: "backend_auto_reply_to_reviews hb wb max_results dry_run =
      (Inr (fst ?s), snd ?s)"
    by (simp add: backend_auto_reply_to_reviews_run)
  from a have i: "i < length reviews" by simp
  have "bd_status (fst ?s ! i) = bs_skipped \<longleftrightarrow>
      hasReply (reviews ! i) \<or> rating (reviews ! i) \<ge> 5"
    unfolding backend_loop_nth [OF i] by (rule backend_process_review_skipped)
  with run backend_loop_length [of hb gb dry_run wb reviews]
  show "\<exists>ds w'. backend_auto_reply_to_reviews hb wb max_results dry_run = (Inr ds, w') \<and>
         length ds = length reviews \<and>
         (bd_status (ds ! i) = bs_skipped \<longleftrightarrow>
            hasReply (reviews ! i) \<or> rating (reviews ! i) \<ge> 5)"
    by blast
qed


lemmas example_eval =
  GooglePlayReviews_def AIResponseGenerator_def init_gemini_client_def configured_env_def
  unconfigured_env_def backend_handler_def storefront_def reply_done_def reply_raises_def
  model_says_def model_raises_def crash_review_def five_star_review_def world0_def
  backend_world0_def

text \<open>
  A batch of a one-star and a five-star review, both with text and without a reply: the
  five-star review is not skipped by reviews.py and is skipped by the backend service.
\<close>

theorem skipped_exactly_when_witness:
  "\<not> hasReply five_star_review \<and> strip (userComment five_star_review) \<noteq> [] \<and>
   rating five_star_review \<ge> 5 \<and>
   (\<exists>res w' ds.
      auto_reply_to_reviews
        (GooglePlayReviews (configured_env (model_says (ascii ''Thank you for the feedback!'')))
           (storefront [crash_review, five_star_review]) reply_done True)
        world0 5 True = (Inr res, w') \<and>
      details res = Some ds \<and> length ds = 2 \<and> d_status (ds ! 1) \<noteq> st_skipped) \<and>
   (\<exists>ds w'.
      backend_auto_reply_to_reviews
        (backend_handler (model_says (ascii ''Thank you for the feedback!''))
           [crash_review, five_star_review])
        backend_world0 5 True = (Inr ds, w') \<and>
      length ds = 2 \<and> bd_status (ds ! 1) = bs_skipped)"
proof -
  let ?m = "model_says (ascii ''Thank you for the feedback!'')"
  let ?rs = "[crash_review, five_star_review]"
  let ?H = "GooglePlayReviews (configured_env ?m) (storefront ?rs) reply_done True"
  let ?G = "AIResponseGenerator (configured_env ?m)"
  let ?HB = "backend_handler ?m ?rs"
  let ?GB = "\<lparr>api_key = Some (ascii ''key''), model = ?m\<rparr>"
  have f: "\<not> hasReply five_star_review \<and> strip (userComment five_star_review) \<noteq> [] \<and>
    rating five_star_review \<ge> 5"
    by (simp add: five_star_review_def string_eval)
  have hr: "enable_ai ?H \<and> ai_generator ?H = Some ?G \<and> list_reviews ?H 5 = Inr ?rs \<and>
    1 < length ?rs"
    by (simp add: GooglePlayReviews_def storefront_def)
  have hb: "b_enable_ai ?HB \<and> b_ai_generator ?HB = Some ?GB \<and>
    b_list_reviews ?HB 5 = Inr ?rs \<and> 1 < length ?rs"
    by (simp add: backend_handler_def storefront_def)
  note t = skipped_exactly_when [where h = ?H and g = ?G and max_results = 5 and reviews = ?rs
      and i = 1 and w = world0 and dry_run = True and hb = ?HB and gb = ?GB
      and wb = backend_world0]
  from t hr obtain res w' ds where
    r: "auto_reply_to_reviews ?H world0 5 True = (Inr res, w')" "details res = Some ds"
      "length ds = length ?rs"
      "d_status (ds ! 1) = st_skipped \<longleftrightarrow>
         hasReply (?rs ! 1) \<or> strip (userComment (?rs ! 1)) = []"
    by blast
  from r(4) f have r4: "d_status (ds ! 1) \<noteq> st_skipped" by simp
  from t hb obtain bds bw' where
    b: "backend_auto_reply_to_reviews ?HB backend_world0 5 True = (Inr bds, bw')"
      "length bds = length ?rs"
      "bd_status (bds ! 1) = bs_skipped \<longleftrightarrow> hasReply (?rs ! 1) \<or> rating (?rs ! 1) \<ge> 5"
    by blast
  from b(3) f have b3: "bd_status (bds ! 1) = bs_skipped" by simp
  from r(3) have r3: "length ds = 2" by simp
  from b(2) have b2: "length bds = 2" by simp
  from f r(1,2) r3 r4 b(1) b2 b3 show ?thesis by blast
qed

text \<open>
  Claim C1 as stated fails for the orchestrator of the backend service: a five-star
  review with text and without a reply is skipped.
\<close>

theorem backend_skips_five_stars_counterexample:
  "\<not> hasReply five_star_review \<and> strip (userComment five_star_review) \<noteq> [] \<and>
   backend_auto_reply_to_reviews
     (backend_handler (model_says (ascii ''Thank you for the feedback!'')) [five_star_review])
     backend_world0 1 True =
   (Inr [backend_skip (ascii ''r2'') bs_skipped ''Positive review (5 stars)''], backend_world0)"
  by (simp add: backend_auto_reply_to_reviews_def backend_process_review_def example_eval
      string_eval)


lemma run_summary:
  assumes "enable_ai h" and "ai_generator h = Some g"
    and "list_reviews h max_results = Inr reviews" and "reviews \<noteq> []"
  shows "\<exists>res w' ds. auto_reply_to_reviews h w max_results dry_run = (Inr res, w') \<and>
      w' = snd (foldl (process_review h g dry_run) (empty_results, w) reviews) \<and>
      processed res = int (length reviews) \<and> details res = Some ds \<and>
      ds = details_of (foldl (process_review h g dry_run) (empty_results, w) reviews) \<and>
      length ds = length reviews \<and> map d_review_id ds = map reviewId reviews \<and>
      successful res = count_status [st_dry_run_success, st_success] ds"
  using auto_reply_to_reviews_run [OF assms, of w dry_run]
    loop_details [of h g dry_run w reviews] loop_processed [of h g dry_run w reviews]
    loop_ids [of h g dry_run w reviews] loop_successful [of h g dry_run w reviews]
  by auto

subsection \<open>Isolation of failures\<close>

text \<open>
  Claim C4, as the program has it. Once the reviews are fetched, the run of reviews.py
  returns its results whatever happens with a single review: every one of the \<open>N\<close>
  reviews is counted as processed and has its detail, in the order of the batch (an
  empty batch returns the counts zero). A review for which \<open>generate_response\<close>
  returns nothing is recorded as \<open>failed\<close> with the reason
  \<open>ai_generation_failed\<close>. A review for which the reply endpoint raises an exception
  other than an HTTP error is recorded as \<open>failed\<close> with the text of the exception
  that \<open>reply_to_review\<close> raises in its place as the reason.
\<close>

theorem failures_isolated:
  "(enable_ai h \<and> ai_generator h = Some g \<and> list_reviews h max_results = Inr reviews \<and>
    reviews \<noteq> [] \<longrightarrow>
      (\<exists>res w' ds. auto_reply_to_reviews h w max_results dry_run = (Inr res, w') \<and>
         processed res = int (length reviews) \<and> details res = Some ds \<and>
         length ds = length reviews \<and> map d_review_id ds = map reviewId reviews)) \<and>
   (enable_ai h \<and> ai_generator h = Some g \<and> list_reviews h max_results = Inr [] \<longrightarrow>
      auto_reply_to_reviews h w max_results dry_run =
        (Inr \<lparr>processed = 0, successful = 0, failed = 0, skipped = 0, details = None\<rparr>, w)) \<and>
   (enable_ai h \<and> ai_generator h = Some g \<and> list_reviews h max_results = Inr reviews \<and>
    i < length reviews \<and>
    \<not> hasReply (reviews ! i) \<and> strip (userComment (reviews ! i)) \<noteq> [] \<and>
    fst (generate_response g (world_at h g dry_run w reviews i)
          (userComment (reviews ! i)) (rating (reviews ! i)) (reviewId (reviews ! i))) = None \<longrightarrow>
      (\<exists>res w' ds. auto_reply_to_reviews h w max_results dry_run = (Inr res, w') \<and>
         details res = Some ds \<and> length ds = length reviews \<and>
         ds ! i = \<lparr>d_review_id = reviewId (reviews ! i), d_status = st_failed,
                   d_reason = Some ai_generation_failed, d_response = None\<rparr>)) \<and>
   (enable_ai h \<and> ai_generator h = Some g \<and> list_reviews h max_results = Inr reviews \<and>
    i < length reviews \<and>
    \<not> hasReply (reviews ! i) \<and> strip (userComment (reviews ! i)) \<noteq> [] \<and> \<not> dry_run \<and>
    generate_response g (world_at h g dry_run w reviews i)
      (userComment (reviews ! i)) (rating (reviews ! i)) (reviewId (reviews ! i)) =
      (Some reply, w1) \<and>
    reviews_reply h (length (reply_calls w1)) (reviewId (reviews ! i)) reply =
      ApiException message \<longrightarrow>
      (\<exists>res w' ds. auto_reply_to_reviews h w max_results dry_run = (Inr res, w') \<and>
         details res = Some ds \<and> length ds = length reviews \<and>
         ds ! i = \<lparr>d_review_id = reviewId (reviews ! i), d_status = st_failed,
                   d_reason = Some (str_exn (Exception
                     (ascii ''Unexpected error while replying to review: '' @ message))),
                   d_response = None\<rparr>))"
proof (intro conjI impI)
  assume "enable_ai h \<and> ai_generator h = Some g \<and> list_reviews h max_results = Inr reviews \<and>
    reviews \<noteq> []"
  then show "\<exists>res w' ds. auto_reply_to_reviews h w max_results dry_run = (Inr res, w') \<and>
         processed res = int (length reviews) \<and> details res = Some ds \<and>
         length ds = length reviews \<and> map d_review_id ds = map reviewId reviews"
    using run_summary [of h g max_results reviews w dry_run] by blast
next
  assume "enable_ai h \<and> ai_generator h = Some g \<and> list_reviews h max_results = Inr []"
  then show "auto_reply_to_reviews h w max_results dry_run =
        (Inr \<lparr>processed = 0, successful = 0, failed = 0, skipped = 0, details = None\<rparr>, w)"
    by (simp add: auto_reply_to_reviews_def)
next
  assume a: "enable_ai h \<and> ai_generator h = Some g \<and> list_reviews h max_results = Inr reviews \<and>
    i < length reviews \<and>
    \<not> hasReply (reviews ! i) \<and> strip (userComment (reviews ! i)) \<noteq> [] \<and>
    fst (generate_response g (world_at h g dry_run w reviews i)
          (userComment (reviews ! i)) (rating (reviews ! i)) (reviewId (reviews ! i))) = None"
  then have i: "i < length reviews" and ne: "reviews \<noteq> []" by auto
  from a have "details_of (foldl (process_review h g dry_run) (empty_results, w) reviews) ! i =
      \<lparr>d_review_id = reviewId (reviews ! i), d_status = st_failed,
       d_reason = Some ai_generation_failed, d_response = None\<rparr>"
    by (auto simp: loop_outcome [OF i] Let_def split: prod.splits)
  with a ne run_summary [of h g max_results reviews w dry_run]
  show "\<exists>res w' ds. auto_reply_to_reviews h w max_results dry_run = (Inr res, w') \<and>
         details res = Some ds \<and> length ds = length reviews \<and>
         ds ! i = \<lparr>d_review_id = reviewId (reviews ! i), d_status = st_failed,
                   d_reason = Some ai_generation_failed, d_response = None\<rparr>"
    by auto
next
  assume a: "enable_ai h \<and> ai_generator h = Some g \<and> list_reviews h max_results = Inr reviews \<and>
    i < length reviews \<and>
    \<not> hasReply (reviews ! i) \<and> strip (userComment (reviews ! i)) \<noteq> [] \<and> \<not> dry_run \<and>
    generate_response g (world_at h g dry_run w reviews i)
      (userComment (reviews ! i)) (rating (reviews ! i)) (reviewId (reviews ! i)) =
      (Some reply, w1) \<and>
    reviews_reply h (length (reply_calls w1)) (reviewId (reviews ! i)) reply =
      ApiException message"
  then have i: "i < length reviews" and ne: "reviews \<noteq> []" by auto
  from a have "fst (reply_to_review h w1 (reviewId (reviews ! i)) reply) =
      Inl (Exception (ascii ''Unexpected error while replying to review: '' @ message))"
    by (simp add: reply_to_review_def Let_def)
  with a have "details_of (foldl (process_review h g dry_run) (empty_results, w) reviews) ! i =
      \<lparr>d_review_id = reviewId (reviews ! i), d_status = st_failed,
       d_reason = Some (str_exn (Exception
         (ascii ''Unexpected error while replying to review: '' @ message))),
       d_response = None\<rparr>"
    by (auto simp: loop_outcome [OF i] Let_def)
  with a ne run_summary [of h g max_results reviews w dry_run]
  show "\<exists>res w' ds. auto_reply_to_reviews h w max_results dry_run = (Inr res, w') \<and>
         details res = Some ds \<and> length ds = length reviews \<and>
         ds ! i = \<lparr>d_review_id = reviewId (reviews ! i), d_status = st_failed,
                   d_reason = Some (str_exn (Exception
                     (ascii ''Unexpected error while replying to review: '' @ message))),
                   d_response = None\<rparr>"
    by auto
qed


lemmas generator_eval =
  generate_response_def validate_response_def truncate_response_def detect_language_def
  any_word_in_def keyword_tables forbidden_words_def rule_for_def response_rules_def
  build_prompt_def log_reply_def

lemmas orchestrator_eval =
  auto_reply_to_reviews_def process_review_def reply_to_review_def append_detail_def
  empty_results_def

text \<open>
  Claim C4 as stated fails for an exception raised while posting: the review is
  recorded as \<open>failed\<close>, and its reason is the text of the exception, not
  \<open>ai_generation_failed\<close>.
\<close>

theorem dispatch_exception_counterexample:
  "fst (auto_reply_to_reviews
     (GooglePlayReviews (configured_env (model_says (ascii ''Thank you for the feedback!'')))
        (storefront [crash_review]) reply_raises True)
     world0 1 False) =
   Inr \<lparr>processed = 1, successful = 0, failed = 1, skipped = 0,
        details = Some
          [\<lparr>d_review_id = ascii ''r1'', d_status = st_failed,
            d_reason = Some (str_exn (Exception
              (ascii ''Unexpected error while replying to review: quota exceeded''))),
            d_response = None\<rparr>]\<rparr> \<and>
   str_exn (Exception (ascii ''Unexpected error while replying to review: quota exceeded''))
     \<noteq> ai_generation_failed"
  by (simp add: orchestrator_eval generator_eval example_eval string_eval Let_def)

text \<open>
  In a batch of two where the model raises, both reviews are reported and the first is
  \<open>failed\<close> with \<open>ai_generation_failed\<close>; where the reply endpoint raises, the
  review is \<open>failed\<close> with the text of the exception.
\<close>

theorem failures_isolated_witness:
  "(\<exists>res w' ds.
      auto_reply_to_reviews
        (GooglePlayReviews (configured_env model_raises)
           (storefront [crash_review, five_star_review]) reply_done True)
        world0 5 False = (Inr res, w') \<and>
      processed res = 2 \<and> details res = Some ds \<and> length ds = 2 \<and>
      map d_review_id ds = [ascii ''r1'', ascii ''r2''] \<and>
      ds ! 0 = \<lparr>d_review_id = ascii ''r1'', d_status = st_failed,
                d_reason = Some ai_generation_failed, d_response = None\<rparr>) \<and>
   (\<exists>res w' ds.
      auto_reply_to_reviews
        (GooglePlayReviews (configured_env (model_says (ascii ''Thank you for the feedback!'')))
           (storefront [crash_review]) reply_raises True)
        world0 1 False = (Inr res, w') \<and>
      details res = Some ds \<and> length ds = 1 \<and>
      ds ! 0 = \<lparr>d_review_id = ascii ''r1'', d_status = st_failed,
                d_reason = Some (str_exn (Exception
                  (ascii ''Unexpected error while replying to review: quota exceeded''))),
                d_response = None\<rparr>)"
proof -
  let ?rs = "[crash_review, five_star_review]"
  let ?H1 = "GooglePlayReviews (configured_env model_raises) (storefront ?rs) reply_done True"
  let ?G1 = "AIResponseGenerator (configured_env model_raises)"
  let ?m = "model_says (ascii ''Thank you for the feedback!'')"
  let ?H2 = "GooglePlayReviews (configured_env ?m) (storefront [crash_review]) reply_raises True"
  let ?G2 = "AIResponseGenerator (configured_env ?m)"
  let ?e = "Exception (ascii ''Unexpected error while replying to review: quota exceeded'')"
  have r: "reviewId crash_review = ascii ''r1''" "reviewId five_star_review = ascii ''r2''"
    "\<not> hasReply crash_review" "strip (userComment crash_review) \<noteq> []"
    by (simp_all add: crash_review_def five_star_review_def string_eval)
  have k1: "enable_ai ?H1 \<and> ai_generator ?H1 = Some ?G1 \<and> list_reviews ?H1 5 = Inr ?rs \<and>
      ?rs \<noteq> []"
    by (simp add: GooglePlayReviews_def storefront_def)
  have k3: "enable_ai ?H1 \<and> ai_generator ?H1 = Some ?G1 \<and> list_reviews ?H1 5 = Inr ?rs \<and>
      0 < length ?rs \<and>
      \<not> hasReply (?rs ! 0) \<and> strip (userComment (?rs ! 0)) \<noteq> [] \<and>
      fst (generate_response ?G1 (world_at ?H1 ?G1 False world0 ?rs 0)
        (userComment (?rs ! 0)) (rating (?rs ! 0)) (reviewId (?rs ! 0))) = None"
    using r by (simp add: GooglePlayReviews_def storefront_def generate_response_def
        AIResponseGenerator_def init_gemini_client_def configured_env_def model_raises_def
        Let_def)
  note t1 = failures_isolated [where h = ?H1 and g = ?G1 and max_results = 5 and reviews = ?rs
      and i = 0 and w = world0 and dry_run = False]
  from t1 [THEN conjunct1, THEN mp, OF k1] obtain res w' ds where
    a: "auto_reply_to_reviews ?H1 world0 5 False = (Inr res, w')"
      "processed res = int (length ?rs)" "details res = Some ds" "length ds = length ?rs"
      "map d_review_id ds = map reviewId ?rs"
    by blast
  from t1 [THEN conjunct2, THEN conjunct2, THEN conjunct1, THEN mp, OF k3]
  obtain res2 w2 ds2 where
    b: "auto_reply_to_reviews ?H1 world0 5 False = (Inr res2, w2)" "details res2 = Some ds2"
      "ds2 ! 0 = \<lparr>d_review_id = reviewId (?rs ! 0), d_status = st_failed,
                  d_reason = Some ai_generation_failed, d_response = None\<rparr>"
    by blast
  from a b have "ds2 = ds" by simp
  with a b r have c1: "\<exists>res w' ds. auto_reply_to_reviews ?H1 world0 5 False = (Inr res, w') \<and>
      processed res = 2 \<and> details res = Some ds \<and> length ds = 2 \<and>
      map d_review_id ds = [ascii ''r1'', ascii ''r2''] \<and>
      ds ! 0 = \<lparr>d_review_id = ascii ''r1'', d_status = st_failed,
                d_reason = Some ai_generation_failed, d_response = None\<rparr>"
    by simp
  have "fst (generate_response ?G2 (world_at ?H2 ?G2 False world0 [crash_review] 0)
      (userComment crash_review) (rating crash_review) (reviewId crash_review)) =
      Some (ascii ''Thank you for the feedback!'')"
    by (simp add: generator_eval example_eval string_eval world_at_def Let_def)
  then obtain w1 where g2: "generate_response ?G2 (world_at ?H2 ?G2 False world0 [crash_review] 0)
      (userComment crash_review) (rating crash_review) (reviewId crash_review) =
      (Some (ascii ''Thank you for the feedback!''), w1)"
    by (metis prod.collapse)
  have p2: "reviews_reply ?H2 (length (reply_calls w1)) (reviewId crash_review)
      (ascii ''Thank you for the feedback!'') = ApiException (ascii ''quota exceeded'')"
    by (simp add: GooglePlayReviews_def reply_raises_def)
  have e: "ascii ''Unexpected error while replying to review: '' @ ascii ''quota exceeded'' =
      ascii ''Unexpected error while replying to review: quota exceeded''"
    by (simp add: ascii_def)
  have k4: "enable_ai ?H2 \<and> ai_generator ?H2 = Some ?G2 \<and>
      list_reviews ?H2 1 = Inr [crash_review] \<and> 0 < length [crash_review] \<and>
      \<not> hasReply ([crash_review] ! 0) \<and> strip (userComment ([crash_review] ! 0)) \<noteq> [] \<and>
      \<not> False \<and>
      generate_response ?G2 (world_at ?H2 ?G2 False world0 [crash_review] 0)
        (userComment ([crash_review] ! 0)) (rating ([crash_review] ! 0))
        (reviewId ([crash_review] ! 0)) =
        (Some (ascii ''Thank you for the feedback!''), w1) \<and>
      reviews_reply ?H2 (length (reply_calls w1)) (reviewId ([crash_review] ! 0))
        (ascii ''Thank you for the feedback!'') = ApiException (ascii ''quota exceeded'')"
    using r g2 p2 by (simp add: GooglePlayReviews_def storefront_def)
  note t2 = failures_isolated [where h = ?H2 and g = ?G2 and max_results = 1
      and reviews = "[crash_review]" and i = 0 and w = world0 and dry_run = False
      and reply = "ascii ''Thank you for the feedback!''" and ?w1.0 = w1
      and message = "ascii ''quota exceeded''"]
  from t2 [THEN conjunct2, THEN conjunct2, THEN conjunct2, THEN mp, OF k4] r e
  have c2: "\<exists>res w' ds.
      auto_reply_to_reviews ?H2 world0 1 False = (Inr res, w') \<and>
      details res = Some ds \<and> length ds = 1 \<and>
      ds ! 0 = \<lparr>d_review_id = ascii ''r1'', d_status = st_failed,
                d_reason = Some (str_exn ?e), d_response = None\<rparr>"
    by simp
  from c1 c2 show ?thesis by blast
qed

text \<open>
  On an HTTP error of the reply endpoint the exception that reaches the loop is the
  \<open>TypeError\<close> of the constructor, and its text is the recorded reason.
\<close>

lemma http_error_while_posting:
  "fst (auto_reply_to_reviews
     (GooglePlayReviews (configured_env (model_says (ascii ''Thank you for the feedback!'')))
        (storefront [crash_review]) reply_http_error True)
     world0 1 False) =
   Inr \<lparr>processed = 1, successful = 0, failed = 1, skipped = 0,
        details = Some
          [\<lparr>d_review_id = ascii ''r1'', d_status = st_failed,
            d_reason = Some (str_exn (TypeError (ascii ''HTTP content should be bytes''))),
            d_response = None\<rparr>]\<rparr>"
  by (simp add: orchestrator_eval generator_eval example_eval reply_http_error_def string_eval
      Let_def)


lemma count_status_pos:
  assumes "i < length ds" and "d_status (ds ! i) \<in> set sts"
  shows "0 < count_status sts ds"
proof -
  from assms(1) have "ds ! i \<in> set ds" by simp
  with assms(2) have "filter (\<lambda>d. d_status d \<in> set sts) ds \<noteq> []"
    by (auto simp: filter_empty_conv)
  then show ?thesis by (simp add: count_status_def)
qed

subsection \<open>Dry run\<close>

text \<open>
  Claim C5, as the program has it. In a dry run of reviews.py no call is made to the
  reply endpoint of the storefront, and a review for which \<open>generate_response\<close>
  returns a validated response has the status \<open>dry_run_success\<close> with that response
  and is counted as successful: the count \<open>successful\<close> of the results is the
  number of details with a status of success, this one among them. In a dry run of the
  backend service no call is made to the reply endpoint either, and a review with a
  generated response has the status \<open>preview\<close> in the list of results, which is all
  that the backend returns.
\<close>

theorem dry_run_previews:
  "(enable_ai h \<and> ai_generator h = Some g \<and> list_reviews h max_results = Inr reviews \<and>
    i < length reviews \<and>
    \<not> hasReply (reviews ! i) \<and> strip (userComment (reviews ! i)) \<noteq> [] \<and>
    fst (generate_response g (world_at h g True w reviews i)
          (userComment (reviews ! i)) (rating (reviews ! i)) (reviewId (reviews ! i))) =
      Some reply \<longrightarrow>
      (\<exists>res w' ds. auto_reply_to_reviews h w max_results True = (Inr res, w') \<and>
         reply_calls w' = reply_calls w \<and> details res = Some ds \<and>
         length ds = length reviews \<and>
         ds ! i = \<lparr>d_review_id = reviewId (reviews ! i), d_status = st_dry_run_success,
                   d_reason = None, d_response = Some reply\<rparr> \<and>
         successful res = count_status [st_dry_run_success, st_success] ds \<and>
         0 < successful res)) \<and>
   (b_enable_ai hb \<and> b_ai_generator hb = Some gb \<and>
    b_list_reviews hb max_results = Inr reviews \<and> i < length reviews \<and>
    \<not> hasReply (reviews ! i) \<and> rating (reviews ! i) < 5 \<and>
    fst (backend_generate_response gb (backend_world_at hb gb True wb reviews i)
          (userComment (reviews ! i)) (rating (reviews ! i)) (reviewId (reviews ! i))) =
      Some reply \<and> reply \<noteq> [] \<longrightarrow>
      (\<exists>ds w'. backend_auto_reply_to_reviews hb wb max_results True = (Inr ds, w') \<and>
         b_reply_calls w' = b_reply_calls wb \<and> length ds = length reviews \<and>
         ds ! i = backend_replied (reviews ! i) reply bs_preview))"
proof (intro conjI impI)
  assume a: "enable_ai h \<and> ai_generator h = Some g \<and> list_reviews h max_results = Inr reviews \<and>
    i < length reviews \<and>
    \<not> hasReply (reviews ! i) \<and> strip (userComment (reviews ! i)) \<noteq> [] \<and>
    fst (generate_response g (world_at h g True w reviews i)
          (userComment (reviews ! i)) (rating (reviews ! i)) (reviewId (reviews ! i))) =
      Some reply"
  then have i: "i < length reviews" and ne: "reviews \<noteq> []" by auto
  from a have "details_of (foldl (process_review h g True) (empty_results, w) reviews) ! i =
      \<lparr>d_review_id = reviewId (reviews ! i), d_status = st_dry_run_success,
       d_reason = None, d_response = Some reply\<rparr>"
    by (auto simp: loop_outcome [OF i] Let_def split: prod.splits)
  moreover from this i have "0 < count_status [st_dry_run_success, st_success]
      (details_of (foldl (process_review h g True) (empty_results, w) reviews))"
    using loop_details [of h g True w reviews]
    by (intro count_status_pos [of i]) auto
  ultimately show "\<exists>res w' ds. auto_reply_to_reviews h w max_results True = (Inr res, w') \<and>
         reply_calls w' = reply_calls w \<and> details res = Some ds \<and>
         length ds = length reviews \<and>
         ds ! i = \<lparr>d_review_id = reviewId (reviews ! i), d_status = st_dry_run_success,
                   d_reason = None, d_response = Some reply\<rparr> \<and>
         successful res = count_status [st_dry_run_success, st_success] ds \<and>
         0 < successful res"
    using a ne run_summary [of h g max_results reviews w True]
      loop_dry_run_reply_calls [of h g w reviews]
    by auto
next
  assume a: "b_enable_ai hb \<and> b_ai_generator hb = Some gb \<and>
    b_list_reviews hb max_results = Inr reviews \<and> i < length reviews \<and>
    \<not> hasReply (reviews ! i) \<and> rating (reviews ! i) < 5 \<and>
    fst (backend_generate_response gb (backend_world_at hb gb True wb reviews i)
          (userComment (reviews ! i)) (rating (reviews ! i)) (reviewId (reviews ! i))) =
      Some reply \<and> reply \<noteq> []"
  let ?s = "foldl (backend_process_review hb gb True) ([], wb) reviews"
  from a have run: "backend_auto_reply_to_reviews hb wb max_results True =
      (Inr (fst ?s), snd ?s)"
    by (simp add: backend_auto_reply_to_reviews_run)
  from a have i: "i < length reviews" by simp
  from a have "fst ?s ! i = backend_replied (reviews ! i) reply bs_preview"
    unfolding backend_loop_nth [OF i]
    by (intro backend_process_review_preview) (simp_all add: backend_world_at_def)
  with run backend_loop_dry_run_reply_calls [of hb gb wb reviews]
    backend_loop_length [of hb gb True wb reviews]
  show "\<exists>ds w'. backend_auto_reply_to_reviews hb wb max_results True = (Inr ds, w') \<and>
         b_reply_calls w' = b_reply_calls wb \<and> length ds = length reviews \<and>
         ds ! i = backend_replied (reviews ! i) reply bs_preview"
    by auto
qed

text \<open>
  The one-star review \<open>App crashes constantly\<close> in a dry run with one result:
  processed 1, successful 1, failed 0, skipped 0, the status \<open>dry_run_success\<close>, and
  no call to the reply endpoint.
\<close>

theorem dry_run_previews_witness:
  "(\<exists>w'. auto_reply_to_reviews
      (GooglePlayReviews (configured_env (model_says (ascii ''Thank you for the feedback!'')))
         (storefront [crash_review]) reply_done True)
      world0 1 True =
     (Inr \<lparr>processed = 1, successful = 1, failed = 0, skipped = 0,
           details = Some
             [\<lparr>d_review_id = ascii ''r1'', d_status = st_dry_run_success, d_reason = None,
               d_response = Some (ascii ''Thank you for the feedback!'')\<rparr>]\<rparr>, w') \<and>
     reply_calls w' = []) \<and>
   (\<exists>ds w'. backend_auto_reply_to_reviews
      (backend_handler (model_says (ascii ''Thank you for the feedback!'')) [crash_review])
      backend_world0 1 True = (Inr ds, w') \<and>
     b_reply_calls w' = [] \<and> length ds = 1 \<and>
     ds ! 0 = backend_replied crash_review (ascii ''Thank you for the feedback!'') bs_preview)"
proof -
  let ?m = "model_says (ascii ''Thank you for the feedback!'')"
  let ?rs = "[crash_review]"
  let ?H = "GooglePlayReviews (configured_env ?m) (storefront ?rs) reply_done True"
  let ?G = "AIResponseGenerator (configured_env ?m)"
  let ?HB = "backend_handler ?m ?rs"
  let ?GB = "\<lparr>api_key = Some (ascii ''key''), model = ?m\<rparr>"
  have r: "\<not> hasReply crash_review" "strip (userComment crash_review) \<noteq> []"
    "rating crash_review < 5"
    by (simp_all add: crash_review_def string_eval)
  have g: "fst (generate_response ?G (world_at ?H ?G True world0 ?rs 0)
      (userComment crash_review) (rating crash_review) (reviewId crash_review)) =
      Some (ascii ''Thank you for the feedback!'')"
    by (simp add: generator_eval example_eval string_eval world_at_def Let_def)
  have k1: "enable_ai ?H \<and> ai_generator ?H = Some ?G \<and> list_reviews ?H 1 = Inr ?rs \<and>
    0 < length ?rs \<and>
    \<not> hasReply (?rs ! 0) \<and> strip (userComment (?rs ! 0)) \<noteq> [] \<and>
    fst (generate_response ?G (world_at ?H ?G True world0 ?rs 0)
          (userComment (?rs ! 0)) (rating (?rs ! 0)) (reviewId (?rs ! 0))) =
      Some (ascii ''Thank you for the feedback!'')"
    using r g by (simp add: GooglePlayReviews_def storefront_def)
  have gb: "fst (backend_generate_response ?GB (backend_world_at ?HB ?GB True backend_world0 ?rs 0)
      (userComment crash_review) (rating crash_review) (reviewId crash_review)) =
      Some (ascii ''Thank you for the feedback!'')"
    by (simp add: backend_generate_response_def backend_detect_language_def
        turkish_indicators_def example_eval string_eval backend_world_at_def Let_def)
  have k2: "b_enable_ai ?HB \<and> b_ai_generator ?HB = Some ?GB \<and>
    b_list_reviews ?HB 1 = Inr ?rs \<and> 0 < length ?rs \<and>
    \<not> hasReply (?rs ! 0) \<and> rating (?rs ! 0) < 5 \<and>
    fst (backend_generate_response ?GB (backend_world_at ?HB ?GB True backend_world0 ?rs 0)
          (userComment (?rs ! 0)) (rating (?rs ! 0)) (reviewId (?rs ! 0))) =
      Some (ascii ''Thank you for the feedback!'') \<and>
    ascii ''Thank you for the feedback!'' \<noteq> []"
    using r gb by (simp add: backend_handler_def storefront_def ascii_def)
  note t = dry_run_previews [where h = ?H and g = ?G and max_results = 1 and reviews = ?rs
      and i = 0 and w = world0 and hb = ?HB and gb = ?GB and wb = backend_world0
      and reply = "ascii ''Thank you for the feedback!''"]
  from t [THEN conjunct1, THEN mp, OF k1] obtain res w' where
    a: "auto_reply_to_reviews ?H world0 1 True = (Inr res, w')"
      "reply_calls w' = reply_calls world0"
    by blast
  have e: "fst (auto_reply_to_reviews ?H world0 1 True) =
     Inr \<lparr>processed = 1, successful = 1, failed = 0, skipped = 0,
           details = Some
             [\<lparr>d_review_id = ascii ''r1'', d_status = st_dry_run_success, d_reason = None,
               d_response = Some (ascii ''Thank you for the feedback!'')\<rparr>]\<rparr>"
    by (simp add: orchestrator_eval generator_eval example_eval string_eval Let_def)
  from a e have c1: "\<exists>w'. auto_reply_to_reviews ?H world0 1 True =
     (Inr \<lparr>processed = 1, successful = 1, failed = 0, skipped = 0,
           details = Some
             [\<lparr>d_review_id = ascii ''r1'', d_status = st_dry_run_success, d_reason = None,
               d_response = Some (ascii ''Thank you for the feedback!'')\<rparr>]\<rparr>, w') \<and>
     reply_calls w' = []"
    by (simp add: world0_def)
  from t [THEN conjunct2, THEN mp, OF k2]
  have c2: "\<exists>ds w'. backend_auto_reply_to_reviews ?HB backend_world0 1 True = (Inr ds, w') \<and>
     b_reply_calls w' = [] \<and> length ds = 1 \<and>
     ds ! 0 = backend_replied crash_review (ascii ''Thank you for the feedback!'') bs_preview"
    by (simp add: backend_world0_def)
  from c1 c2 show ?thesis by blast
qed

text \<open>
  Claim C5 as stated fails for the backend service: what its dry run returns for the
  one-star review is the list with the one result of status \<open>preview\<close>, without any
  count of successful reviews.
\<close>

theorem backend_preview_without_counters_counterexample:
  "backend_auto_reply_to_reviews
     (backend_handler (model_says (ascii ''Thank you for the feedback!'')) [crash_review])
     backend_world0 1 True =
   (Inr [\<lparr>bd_review_id = ascii ''r1'', bd_status = bs_preview, bd_reason = None,
          bd_rating = Some 1, bd_review_text = Some (ascii ''App crashes constantly''),
          bd_ai_response = Some (ascii ''Thank you for the feedback!''), bd_error = None\<rparr>],
    backend_world0
      \<lparr>b_model_calls := 1,
       b_generator_history :=
         [\<lparr>be_review_id = ascii ''r1'', be_review_text = ascii ''App crashes constantly'',
           be_rating = 1, be_language = ascii ''en'',
           be_response = ascii ''Thank you for the feedback!''\<rparr>]\<rparr>)"
  by (simp add: backend_auto_reply_to_reviews_def backend_process_review_def
      backend_generate_response_def backend_detect_language_def backend_replied_def
      turkish_indicators_def example_eval string_eval Let_def)


lemma generate_response_rejected:
  assumes "gemini_client g = Some client"
    and "client (model_calls w)
           (build_prompt review_text r (detect_language review_text) (rule_for r)) = Text reply"
    and "validate_response (strip reply) (detect_language review_text) = None"
  shows "generate_response g w review_text r review_id =
         (None, w\<lparr>model_calls := model_calls w + 1\<rparr>)"
  using assms by (simp add: generate_response_def Let_def)

lemma generate_response_raises:
  assumes "gemini_client g = Some client"
    and "client (model_calls w)
           (build_prompt review_text r (detect_language review_text) (rule_for r)) = Raises"
  shows "generate_response g w review_text r review_id =
         (None, w\<lparr>model_calls := model_calls w + 1\<rparr>)"
  using assms by (simp add: generate_response_def Let_def)

lemma failed_generation_detail:
  assumes "enable_ai h" and "ai_generator h = Some g"
    and "list_reviews h max_results = Inr reviews" and "i < length reviews"
    and "\<not> hasReply (reviews ! i)" and "strip (userComment (reviews ! i)) \<noteq> []"
    and "fst (generate_response g (world_at h g dry_run w reviews i)
           (userComment (reviews ! i)) (rating (reviews ! i)) (reviewId (reviews ! i))) = None"
  shows "\<exists>res w' ds. auto_reply_to_reviews h w max_results dry_run = (Inr res, w') \<and>
      details res = Some ds \<and> length ds = length reviews \<and>
      ds ! i = \<lparr>d_review_id = reviewId (reviews ! i), d_status = st_failed,
                d_reason = Some ai_generation_failed, d_response = None\<rparr>"
proof -
  from assms(4) have ne: "reviews \<noteq> []" by auto
  from assms(5-7)
  have "details_of (foldl (process_review h g dry_run) (empty_results, w) reviews) ! i =
      \<lparr>d_review_id = reviewId (reviews ! i), d_status = st_failed,
       d_reason = Some ai_generation_failed, d_response = None\<rparr>"
    by (auto simp: loop_outcome [OF assms(4)] Let_def split: prod.splits)
  with run_summary [OF assms(1-3) ne, of w dry_run] show ?thesis by auto
qed

subsection \<open>Rejected responses\<close>

text \<open>
  Claim C6, as the program has it. When the model answers and the validator rejects the
  answer, \<open>generate_response\<close> returns nothing and the detail of the review is
  \<open>failed\<close> with the reason \<open>ai_generation_failed\<close> and without a response. When
  the call of the model raises, the detail of the review is the same one.
\<close>

theorem rejection_reported_as_generation_failure:
  "(enable_ai h \<and> ai_generator h = Some g \<and> list_reviews h max_results = Inr reviews \<and>
    i < length reviews \<and>
    \<not> hasReply (reviews ! i) \<and> strip (userComment (reviews ! i)) \<noteq> [] \<and>
    gemini_client g = Some client \<and>
    client (model_calls (world_at h g dry_run w reviews i))
      (build_prompt (userComment (reviews ! i)) (rating (reviews ! i))
         (detect_language (userComment (reviews ! i))) (rule_for (rating (reviews ! i)))) =
      Text reply \<and>
    validate_response (strip reply) (detect_language (userComment (reviews ! i))) = None \<longrightarrow>
    fst (generate_response g (world_at h g dry_run w reviews i)
          (userComment (reviews ! i)) (rating (reviews ! i)) (reviewId (reviews ! i))) = None \<and>
    (\<exists>res w' ds. auto_reply_to_reviews h w max_results dry_run = (Inr res, w') \<and>
       details res = Some ds \<and> length ds = length reviews \<and>
       ds ! i = \<lparr>d_review_id = reviewId (reviews ! i), d_status = st_failed,
                 d_reason = Some ai_generation_failed, d_response = None\<rparr>)) \<and>
   (enable_ai h \<and> ai_generator h = Some g \<and> list_reviews h max_results = Inr reviews \<and>
    i < length reviews \<and>
    \<not> hasReply (reviews ! i) \<and> strip (userComment (reviews ! i)) \<noteq> [] \<and>
    gemini_client g = Some client \<and>
    client (model_calls (world_at h g dry_run w reviews i))
      (build_prompt (userComment (reviews ! i)) (rating (reviews ! i))
         (detect_language (userComment (reviews ! i))) (rule_for (rating (reviews ! i)))) =
      Raises \<longrightarrow>
    (\<exists>res w' ds. auto_reply_to_reviews h w max_results dry_run = (Inr res, w') \<and>
       details res = Some ds \<and> length ds = length reviews \<and>
       ds ! i = \<lparr>d_review_id = reviewId (reviews ! i), d_status = st_failed,
                 d_reason = Some ai_generation_failed, d_response = None\<rparr>))"
proof (intro conjI impI)
  assume a: "enable_ai h \<and> ai_generator h = Some g \<and> list_reviews h max_results = Inr reviews \<and>
    i < length reviews \<and>
    \<not> hasReply (reviews ! i) \<and> strip (userComment (reviews ! i)) \<noteq> [] \<and>
    gemini_client g = Some client \<and>
    client (model_calls (world_at h g dry_run w reviews i))
      (build_prompt (userComment (reviews ! i)) (rating (reviews ! i))
         (detect_language (userComment (reviews ! i))) (rule_for (rating (reviews ! i)))) =
      Text reply \<and>
    validate_response (strip reply) (detect_language (userComment (reviews ! i))) = None"
  then show gen: "fst (generate_response g (world_at h g dry_run w reviews i)
         (userComment (reviews ! i)) (rating (reviews ! i)) (reviewId (reviews ! i))) = None"
    by (simp add: generate_response_rejected)
  with a show "\<exists>res w' ds. auto_reply_to_reviews h w max_results dry_run = (Inr res, w') \<and>
       details res = Some ds \<and> length ds = length reviews \<and>
       ds ! i = \<lparr>d_review_id = reviewId (reviews ! i), d_status = st_failed,
                 d_reason = Some ai_generation_failed, d_response = None\<rparr>"
    by (intro failed_generation_detail) simp_all
next
  assume a: "enable_ai h \<and> ai_generator h = Some g \<and> list_reviews h max_results = Inr reviews \<and>
    i < length reviews \<and>
    \<not> hasReply (reviews ! i) \<and> strip (userComment (reviews ! i)) \<noteq> [] \<and>
    gemini_client g = Some client \<and>
    client (model_calls (world_at h g dry_run w reviews i))
      (build_prompt (userComment (reviews ! i)) (rating (reviews ! i))
         (detect_language (userComment (reviews ! i))) (rule_for (rating (reviews ! i)))) =
      Raises"
  then have "fst (generate_response g (world_at h g dry_run w reviews i)
         (userComment (reviews ! i)) (rating (reviews ! i)) (reviewId (reviews ! i))) = None"
    by (simp add: generate_response_raises)
  with a show "\<exists>res w' ds. auto_reply_to_reviews h w max_results dry_run = (Inr res, w') \<and>
       details res = Some ds \<and> length ds = length reviews \<and>
       ds ! i = \<lparr>d_review_id = reviewId (reviews ! i), d_status = st_failed,
                 d_reason = Some ai_generation_failed, d_response = None\<rparr>"
    by (intro failed_generation_detail) simp_all
qed

text \<open>
  Claim C6 as stated fails: a run in which the model answers with a forbidden word and
  a run in which the call of the model raises return the same results, with the status
  \<open>failed\<close> and the reason \<open>ai_generation_failed\<close>.
\<close>

theorem rejection_indistinguishable_counterexample:
  "validate_response (strip (ascii ''Sorry about that, we will fix it''))
     (detect_language (userComment crash_review)) = None \<and>
   auto_reply_to_reviews
     (GooglePlayReviews (configured_env (model_says (ascii ''Sorry about that, we will fix it'')))
        (storefront [crash_review]) reply_done True)
     world0 1 True =
   (Inr \<lparr>processed = 1, successful = 0, failed = 1, skipped = 0,
         details = Some
           [\<lparr>d_review_id = ascii ''r1'', d_status = st_failed,
             d_reason = Some ai_generation_failed, d_response = None\<rparr>]\<rparr>,
    world0\<lparr>model_calls := 1\<rparr>) \<and>
   auto_reply_to_reviews
     (GooglePlayReviews (configured_env model_raises)
        (storefront [crash_review]) reply_done True)
     world0 1 True =
   (Inr \<lparr>processed = 1, successful = 0, failed = 1, skipped = 0,
         details = Some
           [\<lparr>d_review_id = ascii ''r1'', d_status = st_failed,
             d_reason = Some ai_generation_failed, d_response = None\<rparr>]\<rparr>,
    world0\<lparr>model_calls := 1\<rparr>)"
  by (simp add: orchestrator_eval generator_eval example_eval string_eval Let_def)

text \<open>
  The answer \<open>Sorry about that, we will fix it\<close> is rejected, and the review is
  recorded as \<open>failed\<close> with \<open>ai_generation_failed\<close>, as it is when the model
  raises.
\<close>

theorem rejection_reported_as_generation_failure_witness:
  "validate_response (strip (ascii ''Sorry about that, we will fix it''))
     (detect_language (userComment crash_review)) = None \<and>
   (\<exists>res w' ds.
      auto_reply_to_reviews
        (GooglePlayReviews
           (configured_env (model_says (ascii ''Sorry about that, we will fix it'')))
           (storefront [crash_review]) reply_done True)
        world0 1 True = (Inr res, w') \<and>
      details res = Some ds \<and> length ds = 1 \<and>
      ds ! 0 = \<lparr>d_review_id = ascii ''r1'', d_status = st_failed,
                d_reason = Some ai_generation_failed, d_response = None\<rparr>) \<and>
   (\<exists>res w' ds.
      auto_reply_to_reviews
        (GooglePlayReviews (configured_env model_raises)
           (storefront [crash_review]) reply_done True)
        world0 1 True = (Inr res, w') \<and>
      details res = Some ds \<and> length ds = 1 \<and>
      ds ! 0 = \<lparr>d_review_id = ascii ''r1'', d_status = st_failed,
                d_reason = Some ai_generation_failed, d_response = None\<rparr>)"
proof -
  let ?m = "model_says (ascii ''Sorry about that, we will fix it'') :: prompt client"
  let ?n = "model_raises :: prompt client"
  let ?rs = "[crash_review]"
  let ?H = "GooglePlayReviews (configured_env ?m) (storefront ?rs) reply_done True"
  let ?G = "AIResponseGenerator (configured_env ?m)"
  let ?H' = "GooglePlayReviews (configured_env ?n) (storefront ?rs) reply_done True"
  let ?G' = "AIResponseGenerator (configured_env ?n)"
  have v: "validate_response (strip (ascii ''Sorry about that, we will fix it''))
     (detect_language (userComment crash_review)) = None"
    by (simp add: generator_eval example_eval string_eval Let_def)
  have r: "\<not> hasReply crash_review" "strip (userComment crash_review) \<noteq> []"
    "reviewId crash_review = ascii ''r1''"
    by (simp_all add: crash_review_def string_eval)
  have k: "enable_ai ?H \<and> ai_generator ?H = Some ?G \<and> list_reviews ?H 1 = Inr ?rs \<and>
   0 < length ?rs \<and>
   \<not> hasReply (?rs ! 0) \<and> strip (userComment (?rs ! 0)) \<noteq> [] \<and>
   gemini_client ?G = Some ?m \<and>
   ?m (model_calls (world_at ?H ?G True world0 ?rs 0))
     (build_prompt (userComment (?rs ! 0)) (rating (?rs ! 0))
        (detect_language (userComment (?rs ! 0))) (rule_for (rating (?rs ! 0)))) =
     Text (ascii ''Sorry about that, we will fix it'') \<and>
   validate_response (strip (ascii ''Sorry about that, we will fix it''))
     (detect_language (userComment (?rs ! 0))) = None"
    using v r
    by (simp add: GooglePlayReviews_def storefront_def AIResponseGenerator_def
        init_gemini_client_def configured_env_def model_says_def ascii_def)
  have k': "enable_ai ?H' \<and> ai_generator ?H' = Some ?G' \<and> list_reviews ?H' 1 = Inr ?rs \<and>
   0 < length ?rs \<and>
   \<not> hasReply (?rs ! 0) \<and> strip (userComment (?rs ! 0)) \<noteq> [] \<and>
   gemini_client ?G' = Some ?n \<and>
   ?n (model_calls (world_at ?H' ?G' True world0 ?rs 0))
     (build_prompt (userComment (?rs ! 0)) (rating (?rs ! 0))
        (detect_language (userComment (?rs ! 0))) (rule_for (rating (?rs ! 0)))) =
     Raises"
    using r
    by (simp add: GooglePlayReviews_def storefront_def AIResponseGenerator_def
        init_gemini_client_def configured_env_def model_raises_def ascii_def)
  from rejection_reported_as_generation_failure
    [where h = ?H and g = ?G and max_results = 1 and reviews = ?rs and i = 0 and w = world0
       and dry_run = True and client = ?m
       and reply = "ascii ''Sorry about that, we will fix it''",
     THEN conjunct1, THEN mp, OF k] r
  have c1: "\<exists>res w' ds. auto_reply_to_reviews ?H world0 1 True = (Inr res, w') \<and>
      details res = Some ds \<and> length ds = 1 \<and>
      ds ! 0 = \<lparr>d_review_id = ascii ''r1'', d_status = st_failed,
                d_reason = Some ai_generation_failed, d_response = None\<rparr>"
    by simp
  from rejection_reported_as_generation_failure
    [where h = ?H' and g = ?G' and max_results = 1 and reviews = ?rs and i = 0 and w = world0
       and dry_run = True and client = ?n,
     THEN conjunct2, THEN mp, OF k'] r
  have c2: "\<exists>res w' ds. auto_reply_to_reviews ?H' world0 1 True = (Inr res, w') \<and>
      details res = Some ds \<and> length ds = 1 \<and>
      ds ! 0 = \<lparr>d_review_id = ascii ''r1'', d_status = st_failed,
                d_reason = Some ai_generation_failed, d_response = None\<rparr>"
    by simp
  from v c1 c2 show ?thesis by blast
qed



subsection \<open>Configuration\<close>




end
